theory Spec2Isabelle
  imports Main
begin

section \<open>Paths, time stamps and exceptions\<close>

text \<open>
  A \<open>pathlib.Path\<close> is the list of its components. Paths inside the vault are written
  relative to the vault root, so \<open>[]\<close> is the vault root itself and
  \<open>[''Needs_Action'', n]\<close> is \<open>vault_path / 'Needs_Action' / n\<close>. The path of a dropped
  source file is the list of the components of its absolute path. File names are byte
  strings.
\<close>

type_synonym path = "string list"

definition path_name :: "path \<Rightarrow> string" where
  "path_name p = (if p = [] then [] else last p)"

definition path_parent :: "path \<Rightarrow> path" where
  "path_parent p = butlast p"

text \<open>
  \<open>Path.suffix\<close>: with \<open>i = name.rfind('.')\<close>, the suffix is \<open>name[i:]\<close> when
  \<open>0 < i < len(name) - 1\<close> and the empty string otherwise.
\<close>

definition path_suffix :: "path \<Rightarrow> string" where
  "path_suffix p =
     (let nm = path_name p;
          ext = rev (takeWhile (\<lambda>c. c \<noteq> CHR ''.'') (rev nm))
      in if CHR ''.'' \<in> set nm \<and> length ext + 1 < length nm \<and> ext \<noteq> []
         then CHR ''.'' # ext else [])"

text \<open>\<open>str.lower()\<close>, on the ASCII letters.\<close>

definition lower_char :: "char \<Rightarrow> char" where
  "lower_char c =
     (case map_of (zip ''ABCDEFGHIJKLMNOPQRSTUVWXYZ'' ''abcdefghijklmnopqrstuvwxyz'') c of
        Some d \<Rightarrow> d
      | None \<Rightarrow> c)"

definition lower :: "string \<Rightarrow> string" where
  "lower s = map lower_char s"

definition startswith :: "string \<Rightarrow> string \<Rightarrow> bool" where
  "startswith s pre = (take (length pre) s = pre)"

definition endswith :: "string \<Rightarrow> string \<Rightarrow> bool" where
  "endswith s suf = (length suf \<le> length s \<and> drop (length s - length suf) s = suf)"

text \<open>\<open>str.replace(old, new)\<close> for a single character \<open>old\<close>.\<close>

definition replace_char :: "char \<Rightarrow> char \<Rightarrow> string \<Rightarrow> string" where
  "replace_char old new s = map (\<lambda>c. if c = old then new else c) s"

text \<open>
  \<open>datetime.now()\<close> returns a value with these fields. The two \<open>strftime\<close> formats of
  the source are written out: \<open>'%Y%m%d_%H%M%S'\<close> (record names) and \<open>'%Y-%m-%d'\<close>
  (log file names); both stop at the second and the day, the microsecond is never
  printed.
\<close>

record datetime =
  dt_year :: nat
  dt_month :: nat
  dt_day :: nat
  dt_hour :: nat
  dt_minute :: nat
  dt_second :: nat
  dt_microsecond :: nat

definition digit_char :: "nat \<Rightarrow> char" where
  "digit_char d = ''0123456789'' ! (d mod 10)"

fun digits :: "nat \<Rightarrow> string" where
  "digits n = (if n < 10 then [digit_char n] else digits (n div 10) @ [digit_char (n mod 10)])"

declare digits.simps [simp del]

definition zfill :: "nat \<Rightarrow> nat \<Rightarrow> string" where
  "zfill w n = replicate (w - length (digits n)) CHR ''0'' @ digits n"

definition strftime_stamp :: "datetime \<Rightarrow> string" where
  "strftime_stamp t =
     zfill 4 (dt_year t) @ zfill 2 (dt_month t) @ zfill 2 (dt_day t) @ ''_'' @
     zfill 2 (dt_hour t) @ zfill 2 (dt_minute t) @ zfill 2 (dt_second t)"

definition strftime_date :: "datetime \<Rightarrow> string" where
  "strftime_date t =
     zfill 4 (dt_year t) @ ''-'' @ zfill 2 (dt_month t) @ ''-'' @ zfill 2 (dt_day t)"

text \<open>The exceptions the modelled code can meet; every one is a subclass of \<open>Exception\<close>.\<close>

datatype exn =
    FileNotFoundError
  | FileExistsError
  | IsADirectoryError
  | NotADirectoryError
  | PermissionError
  | UnicodeEncodeError
  | OverflowError
  | TimeoutExpired
  | OtherError

section \<open>The vault as a file system\<close>

text \<open>
  The text the programs write is kept structured: an action record is the header block of
  the markdown file (the body is fixed text), a log entry is the header block and the item
  list of one orchestrator log entry, raw bytes are a copied source file. A file is the
  sequence of the pieces written to it, so that appending is list append. In a record,
  \<open>FromTimestamp t\<close> stands for \<open>datetime.fromtimestamp(t).isoformat()\<close> and \<open>NowIso d\<close>
  for \<open>d.isoformat()\<close> of a reading \<open>d\<close> of the clock.
\<close>

datatype time_field = FromTimestamp int | NowIso datetime

record action_record =
  ar_source_file :: string
  ar_source_path :: path
  ar_file_size :: nat
  ar_created :: time_field
  ar_modified :: time_field
  ar_detected :: datetime

record log_entry =
  le_timestamp :: datetime
  le_action_type :: string
  le_count :: nat
  le_items :: "string list"
  le_next_steps :: "string list"

datatype chunk = ActionText action_record | LogText log_entry | RawBytes string

datatype node = Dir | File "chunk list"

text \<open>
  The entries are kept in directory-listing order. \<open>write_denied\<close> is the set of paths
  at which the operating system refuses to create a directory or to open a file for
  writing (permissions). \<open>write_error\<close> tells what goes wrong after a file has been
  opened: \<open>Some e\<close> when writing the given piece to the open file raises \<open>e\<close>
  (\<open>UnicodeEncodeError\<close> for text that has no UTF-8 encoding, such as a file name that
  is not valid UTF-8; an \<open>OSError\<close> when the disk is full), \<open>None\<close> when the piece is
  written and the file closed.
\<close>

record vault =
  entries :: "(path \<times> node) list"
  write_denied :: "path \<Rightarrow> bool"
  write_error :: "path \<Rightarrow> chunk \<Rightarrow> exn option"

definition node_at :: "vault \<Rightarrow> path \<Rightarrow> node option" where
  "node_at v p = (if p = [] then Some Dir else map_of (entries v) p)"

definition path_exists :: "vault \<Rightarrow> path \<Rightarrow> bool" where
  "path_exists v p = (node_at v p \<noteq> None)"

definition is_dir :: "vault \<Rightarrow> path \<Rightarrow> bool" where
  "is_dir v p = (node_at v p = Some Dir)"

text \<open>Storing a node keeps the place of an entry that exists and appends a new one.\<close>

fun store :: "path \<Rightarrow> node \<Rightarrow> (path \<times> node) list \<Rightarrow> (path \<times> node) list" where
  "store p n [] = [(p, n)]"
| "store p n (e # es) = (if fst e = p then (p, n) # es else e # store p n es)"

definition put :: "vault \<Rightarrow> path \<Rightarrow> node \<Rightarrow> vault" where
  "put v p n = v\<lparr>entries := store p n (entries v)\<rparr>"

text \<open>\<open>os.mkdir\<close>: the parent must be a directory and the path must be new.\<close>

definition os_mkdir :: "vault \<Rightarrow> path \<Rightarrow> exn + vault" where
  "os_mkdir v p =
     (if p = [] then Inl FileExistsError
      else case node_at v (path_parent p) of
             None \<Rightarrow> Inl FileNotFoundError
           | Some (File cs) \<Rightarrow> Inl NotADirectoryError
           | Some Dir \<Rightarrow>
               (case node_at v p of
                  Some n \<Rightarrow> Inl FileExistsError
                | None \<Rightarrow> if write_denied v p then Inl PermissionError else Inr (put v p Dir)))"

text \<open>
  \<open>Path.mkdir(parents=False, exist_ok=True)\<close>: an \<open>OSError\<close> of \<open>os.mkdir\<close> is
  swallowed when the path is a directory afterwards.
\<close>

definition mkdir_exist_ok :: "vault \<Rightarrow> path \<Rightarrow> exn + vault" where
  "mkdir_exist_ok v p =
     (case os_mkdir v p of
        Inr v' \<Rightarrow> Inr v'
      | Inl e \<Rightarrow> if e \<noteq> FileNotFoundError \<and> is_dir v p then Inr v else Inl e)"

text \<open>
  \<open>Path.mkdir(parents=True, exist_ok=True)\<close>: on \<open>FileNotFoundError\<close> the parent is made
  first (with the same flags) and the directory itself is tried once more. When that
  second try raises, the parents made so far stay behind in Python; the model returns the
  exception alone, which is all a caller with a path of one component, as every caller
  here, can tell.
\<close>

function mkdir_parents :: "vault \<Rightarrow> path \<Rightarrow> exn + vault" where
  "mkdir_parents v p =
     (case os_mkdir v p of
        Inr v' \<Rightarrow> Inr v'
      | Inl e \<Rightarrow>
          if e = FileNotFoundError then
            (if p = [] then Inl e
             else case mkdir_parents v (path_parent p) of
                    Inl e' \<Rightarrow> Inl e'
                  | Inr v' \<Rightarrow> mkdir_exist_ok v' p)
          else if is_dir v p then Inr v else Inl e)"
  by pat_completeness auto
termination
  by (relation "measure (\<lambda>(v, p). length p)") (auto simp: path_parent_def)

declare mkdir_parents.simps [simp del]

text \<open>
  Opening a file for writing: the parent must be a directory, the path must not be one,
  and the operating system must allow it; the result is the content the file had, empty
  for a new file.
\<close>

definition open_for_write :: "vault \<Rightarrow> path \<Rightarrow> exn + chunk list" where
  "open_for_write v p =
     (case node_at v (path_parent p) of
        None \<Rightarrow> Inl FileNotFoundError
      | Some (File cs) \<Rightarrow> Inl NotADirectoryError
      | Some Dir \<Rightarrow>
          (case node_at v p of
             Some Dir \<Rightarrow> Inl IsADirectoryError
           | Some (File cs) \<Rightarrow> if write_denied v p then Inl PermissionError else Inr cs
           | None \<Rightarrow> if write_denied v p then Inl PermissionError else Inr []))"

text \<open>
  \<open>Path.write_text\<close> is \<open>open(mode='w')\<close> followed by \<open>write\<close>: opening creates the
  file or empties it, so a write that raises afterwards leaves an empty file behind. A
  failed \<open>open\<close> changes nothing.
\<close>

definition write_text :: "vault \<Rightarrow> path \<Rightarrow> chunk \<Rightarrow> vault \<times> (exn + unit)" where
  "write_text v p c =
     (case open_for_write v p of
        Inl e \<Rightarrow> (v, Inl e)
      | Inr old \<Rightarrow>
          (case write_error v p c of
             Some e \<Rightarrow> (put v p (File []), Inl e)
           | None \<Rightarrow> (put v p (File [c]), Inr ())))"

text \<open>
  \<open>with open(log_file, 'a') as f: f.write(entry)\<close>: opening creates a missing file and
  keeps the content of one that exists, so a write that raises afterwards leaves the file
  with what it had.
\<close>

definition append_text :: "vault \<Rightarrow> path \<Rightarrow> chunk \<Rightarrow> vault \<times> (exn + unit)" where
  "append_text v p c =
     (case open_for_write v p of
        Inl e \<Rightarrow> (v, Inl e)
      | Inr old \<Rightarrow>
          (case write_error v p c of
             Some e \<Rightarrow> (put v p (File old), Inl e)
           | None \<Rightarrow> (put v p (File (old @ [c])), Inr ())))"

text \<open>
  \<open>folder.glob('*.md')\<close>: the entries directly inside the folder whose name ends in
  \<open>.md\<close>, in listing order; nothing when the folder is not a directory. Names are
  compared as on a POSIX system, where the pattern is case-sensitive.
\<close>

definition glob_md :: "vault \<Rightarrow> path \<Rightarrow> path list" where
  "glob_md v d =
     (if is_dir v d
      then filter (\<lambda>p. p \<noteq> [] \<and> path_parent p = d \<and> endswith (path_name p) ''.md'')
             (map fst (entries v))
      else [])"

section \<open>The drop detector (\<open>filesystem_watcher.py\<close>)\<close>

text \<open>
  \<open>FileDropHandler\<close> keeps its drop folder, the set of fingerprints it has processed and
  writes into \<open>vault_path / 'Needs_Action'\<close>. The messages it logs at level INFO or above
  are kept in \<open>log\<close>; the root logger is configured at INFO, so the \<open>debug\<close> calls
  of the source print nothing and are left out.
\<close>

record stat_result =
  st_size :: nat
  st_ctime :: int
  st_mtime :: int

text \<open>
  A fingerprint is either the hex digest of the content or \<open>str(st_mtime)\<close>. The two
  never coincide as strings (a digest is 32 hexadecimal digits, the text of a float is
  not), so they are the two cases of a datatype.
\<close>

datatype fingerprint = Md5Hex string | MtimeStr int

datatype log_msg =
    NewFileDetected path
  | CreatedActionFile path
  | CopiedSource path
  | WarnMetadata exn
  | WarnCopy exn
  | Processed path path
  | ErrorProcessing path exn

record handler =
  drop_path :: path
  processed_files :: "fingerprint set"
  h_vault :: vault
  log :: "log_msg list"

record event =
  is_directory :: bool
  src_path :: path

text \<open>
  The source file belongs to whoever dropped it and may change or vanish while the handler
  runs, so what the operating system answers about it during one call of \<open>on_created\<close>
  is an input: the result of reading it for the hash, of the \<open>stat\<close> in the hash
  fallback, of the \<open>stat\<close> for the metadata, of reading it for the copy, and the
  three readings of the clock that decide the record (its name, the default timestamps,
  the detection time). \<open>fromtimestamp_raises\<close> tells for which time stamps
  \<open>datetime.fromtimestamp\<close> raises (\<open>OverflowError\<close> or \<open>OSError\<close> for a time out of
  the range of the platform) and what.
\<close>

record source_io =
  open_read :: "exn + string"
  stat_for_hash :: "exn + stat_result"
  stat_for_meta :: "exn + stat_result"
  fromtimestamp_raises :: "int \<Rightarrow> exn option"
  copy_read :: "exn + string"
  now_name :: datetime
  now_default :: datetime
  now_detected :: datetime

definition needs_action :: path where
  "needs_action = [''Needs_Action'']"

text \<open>\<open>_get_file_hash\<close>; \<open>md5\<close> stands for \<open>hashlib.md5(...).hexdigest()\<close>.\<close>

definition get_file_hash :: "(string \<Rightarrow> string) \<Rightarrow> source_io \<Rightarrow> exn + fingerprint" where
  "get_file_hash md5 io =
     (case open_read io of
        Inr bytes \<Rightarrow> Inr (Md5Hex (md5 bytes))
      | Inl e \<Rightarrow>
          (case stat_for_hash io of
             Inr st \<Rightarrow> Inr (MtimeStr (st_mtime st))
           | Inl e' \<Rightarrow> Inl e'))"

definition safe_name :: "path \<Rightarrow> string" where
  "safe_name source = replace_char CHR ''.'' CHR ''_'' (replace_char CHR '' '' CHR ''_'' (path_name source))"

definition action_filename :: "path \<Rightarrow> datetime \<Rightarrow> string" where
  "action_filename source t = ''FILE_DROP_'' @ safe_name source @ ''_'' @ strftime_stamp t @ ''.md''"

definition text_extensions :: "string list" where
  "text_extensions = [''.txt'', ''.md'', ''.csv'', ''.json'', ''.xml'', ''.yaml'', ''.yml'', ''.log'']"

definition copy_name :: "path \<Rightarrow> datetime \<Rightarrow> string" where
  "copy_name source t = path_name source @ ''_'' @ strftime_stamp t"

text \<open>
  \<open>shutil.copy2(source, dest_file)\<close>: the source is opened and read, and written to the
  destination, inside the destination when that is a directory. A source that cannot be
  opened leaves the vault as it is; a failure after the destination has been opened
  leaves the destination empty. Any failure is caught by the caller.
\<close>

definition copy2 :: "vault \<Rightarrow> path \<Rightarrow> source_io \<Rightarrow> path \<Rightarrow> vault \<times> (exn + unit)" where
  "copy2 v source io dest =
     (case copy_read io of
        Inl e \<Rightarrow> (v, Inl e)
      | Inr bytes \<Rightarrow>
          write_text v (if is_dir v dest then dest @ [path_name source] else dest) (RawBytes bytes))"

text \<open>
  The \<open>try\<close> block of \<open>_create_action_file\<close> that reads the metadata: the \<open>stat\<close>,
  then \<open>datetime.fromtimestamp\<close> of the creation time and of the modification time. It
  yields the \<open>stat\<close> result when all three have answered and the first exception
  otherwise.
\<close>

definition try_metadata :: "source_io \<Rightarrow> exn + stat_result" where
  "try_metadata io =
     (case stat_for_meta io of
        Inl e \<Rightarrow> Inl e
      | Inr st \<Rightarrow>
          (case fromtimestamp_raises io (st_ctime st) of
             Some e \<Rightarrow> Inl e
           | None \<Rightarrow>
               (case fromtimestamp_raises io (st_mtime st) of
                  Some e \<Rightarrow> Inl e
                | None \<Rightarrow> Inr st)))"

text \<open>
  \<open>_create_action_file\<close>. When \<open>write_text\<close> raises, the handler is returned with what
  has happened by then: the warning about the metadata in the log and the emptied record
  file in the vault.
\<close>

definition create_action_file :: "handler \<Rightarrow> path \<Rightarrow> source_io \<Rightarrow> handler \<times> (exn + path)" where
  "create_action_file h source io =
     (let timestamp = now_name io;
          action_path = needs_action @ [action_filename source timestamp];
          (file_size, created, modified, h1) =
             (case try_metadata io of
                Inr st \<Rightarrow> (st_size st, FromTimestamp (st_ctime st), FromTimestamp (st_mtime st), h)
              | Inl e \<Rightarrow>
                  (0, NowIso (now_default io), NowIso (now_default io),
                   h\<lparr>log := log h @ [WarnMetadata e]\<rparr>));
          content = ActionText \<lparr>ar_source_file = path_name source, ar_source_path = source,
                      ar_file_size = file_size, ar_created = created, ar_modified = modified,
                      ar_detected = now_detected io\<rparr>
      in case write_text (h_vault h1) action_path content of
           (v, Inl e) \<Rightarrow> (h1\<lparr>h_vault := v\<rparr>, Inl e)
         | (v, Inr u) \<Rightarrow>
             (let h2 = h1\<lparr>h_vault := v, log := log h1 @ [CreatedActionFile action_path]\<rparr>;
                  h3 = (if lower (path_suffix source) \<in> set text_extensions
                        then (let dest_file = needs_action @ [copy_name source timestamp]
                              in case copy2 v source io dest_file of
                                   (v', Inr u') \<Rightarrow>
                                     h2\<lparr>h_vault := v', log := log h2 @ [CopiedSource dest_file]\<rparr>
                                 | (v', Inl e) \<Rightarrow>
                                     h2\<lparr>h_vault := v', log := log h2 @ [WarnCopy e]\<rparr>)
                        else h2)
              in (h3, Inr action_path)))"

text \<open>
  \<open>on_created\<close>. The result is the handler afterwards and \<open>Inl e\<close> when the exception
  \<open>e\<close> leaves the method, \<open>Inr ()\<close> when it returns. The hash is taken outside the
  \<open>try\<close> block, so what \<open>_get_file_hash\<close> raises leaves the method. The sleep of half
  a second before the record is made shows only in the clock readings, which are inputs.
\<close>

definition on_created :: "(string \<Rightarrow> string) \<Rightarrow> handler \<Rightarrow> event \<Rightarrow> source_io \<Rightarrow> handler \<times> (exn + unit)" where
  "on_created md5 h ev io =
     (if is_directory ev then (h, Inr ())
      else
        (let source = src_path ev
         in case get_file_hash md5 io of
              Inl e \<Rightarrow> (h, Inl e)
            | Inr file_hash \<Rightarrow>
                if file_hash \<in> processed_files h then (h, Inr ())
                else if startswith (path_name source) ''~'' \<or> startswith (path_name source) ''.''
                  then (h, Inr ())
                else if path_parent source \<noteq> drop_path h then (h, Inr ())
                else
                  (let h0 = h\<lparr>log := log h @ [NewFileDetected source]\<rparr>
                   in case create_action_file h0 source io of
                        (h1, Inr action_path) \<Rightarrow>
                          (h1\<lparr>processed_files := insert file_hash (processed_files h1),
                              log := log h1 @ [Processed source action_path]\<rparr>, Inr ())
                      | (h1, Inl e) \<Rightarrow>
                          (h1\<lparr>log := log h1 @ [ErrorProcessing source e]\<rparr>, Inr ()))))"

text \<open>
  The events one handler receives in its lifetime, one after the other. An exception that
  leaves \<open>on_created\<close> has changed nothing, and the next event finds the handler as it
  was.
\<close>

fun run_events :: "(string \<Rightarrow> string) \<Rightarrow> handler \<Rightarrow> (event \<times> source_io) list \<Rightarrow> handler" where
  "run_events md5 h [] = h"
| "run_events md5 h (e # es) = run_events md5 (fst (on_created md5 h (fst e) (snd e))) es"

section \<open>The orchestrator (\<open>orchestrator.py\<close>)\<close>

text \<open>
  A \<open>subprocess.Popen\<close> handle is the process id together with what the child does once
  it is asked to terminate: \<open>Some d\<close> when it exits \<open>d\<close> milliseconds after the request,
  \<open>None\<close> when it ignores the request. The calls the orchestrator makes to the operating
  system that leave no trace in the vault (signals, waits, spawned processes, directory
  reads) are recorded in \<open>calls\<close>, in order. The messages of the orchestrator's
  logger go to the console only and are left out.
\<close>

record proc =
  pid :: nat
  exit_after_term :: "nat option"

datatype sys_call =
    Terminate nat
  | Waited nat nat
  | Kill nat
  | Spawned nat
  | PathExists path
  | Glob path

record orchestrator =
  o_vault :: vault
  watcher_process :: "proc option"
  running :: bool
  calls :: "sys_call list"

definition folders :: "string list" where
  "folders = [''Inbox'', ''Needs_Action'', ''Done'', ''Pending_Approval'', ''Approved'',
              ''Rejected'', ''Plans'', ''Logs'', ''Briefings'']"

text \<open>The loop of \<open>_ensure_folders\<close>; the directories made before an exception stay.\<close>

fun mkdir_all :: "vault \<Rightarrow> string list \<Rightarrow> vault \<times> (exn + unit)" where
  "mkdir_all v [] = (v, Inr ())"
| "mkdir_all v (folder # rest) =
     (case mkdir_parents v [folder] of
        Inl e \<Rightarrow> (v, Inl e)
      | Inr v' \<Rightarrow> mkdir_all v' rest)"

definition ensure_folders :: "orchestrator \<Rightarrow> orchestrator \<times> (exn + unit)" where
  "ensure_folders s = (case mkdir_all (o_vault s) folders of (v, r) \<Rightarrow> (s\<lparr>o_vault := v\<rparr>, r))"

text \<open>
  \<open>Popen.wait(timeout)\<close>: returns when the child has exited within the timeout (after the
  time the child took), raises \<open>TimeoutExpired\<close> after the timeout otherwise. Times are
  in milliseconds, so the source's \<open>timeout=5\<close> is 5000.
\<close>

definition wait_timeout :: "proc \<Rightarrow> nat \<Rightarrow> exn + nat" where
  "wait_timeout p t =
     (case exit_after_term p of
        Some d \<Rightarrow> if d \<le> t then Inr d else Inl TimeoutExpired
      | None \<Rightarrow> Inl TimeoutExpired)"

definition stop_watcher :: "orchestrator \<Rightarrow> orchestrator" where
  "stop_watcher s =
     (case watcher_process s of
        None \<Rightarrow> s
      | Some p \<Rightarrow>
          (let s1 = s\<lparr>calls := calls s @ [Terminate (pid p)]\<rparr>;
               s2 = (case wait_timeout p 5000 of
                       Inr d \<Rightarrow> s1\<lparr>calls := calls s1 @ [Waited (pid p) d]\<rparr>
                     | Inl e \<Rightarrow> s1\<lparr>calls := calls s1 @ [Waited (pid p) 5000, Kill (pid p)]\<rparr>)
           in s2\<lparr>watcher_process := None\<rparr>))"

text \<open>The time a call blocks its caller: only a wait does.\<close>

fun blocking_ms :: "sys_call \<Rightarrow> nat" where
  "blocking_ms (Waited p d) = d"
| "blocking_ms c = 0"

definition check_needs_action :: "orchestrator \<Rightarrow> orchestrator \<times> path list" where
  "check_needs_action s =
     (let needs_action_folder = [''Needs_Action''];
          s1 = s\<lparr>calls := calls s @ [PathExists needs_action_folder]\<rparr>
      in if \<not> path_exists (o_vault s) needs_action_folder then (s1, [])
         else (s1\<lparr>calls := calls s1 @ [Glob needs_action_folder]\<rparr>,
               glob_md (o_vault s) needs_action_folder))"

definition check_approved_actions :: "orchestrator \<Rightarrow> orchestrator \<times> path list" where
  "check_approved_actions s =
     (let approved_folder = [''Approved''];
          s1 = s\<lparr>calls := calls s @ [PathExists approved_folder]\<rparr>
      in if \<not> path_exists (o_vault s) approved_folder then (s1, [])
         else (s1\<lparr>calls := calls s1 @ [Glob approved_folder]\<rparr>,
               glob_md (o_vault s) approved_folder))"

text \<open>
  What the environment answers during one cycle: the outcome of spawning \<open>qwen\<close>
  (\<open>Inr\<close> the process id, \<open>Inl\<close> whatever the \<open>try\<close> block around \<open>Popen\<close> raises:
  \<open>FileNotFoundError\<close> when the binary is not found, and also the \<open>UnboundLocalError\<close>
  that the function-local \<open>import subprocess\<close> of the \<open>win32\<close> branch causes on every
  other platform, modelled as \<open>OtherError\<close>) and the readings of the clock in the two
  logging methods, one for the name of the log file and one for the entry's timestamp.
\<close>

record cycle_io =
  popen_qwen :: "exn + nat"
  now_pending_file :: datetime
  now_pending_stamp :: datetime
  now_approved_file :: datetime
  now_approved_stamp :: datetime

definition pending_next_steps :: "string list" where
  "pending_next_steps = [''Run qwen in the vault directory'', ''Process the pending tasks'',
                         ''Move completed tasks to Done folder'']"

definition approved_next_steps :: "string list" where
  "approved_next_steps = [''These actions require execution via MCP servers or manual processing.'']"

definition log_pending_tasks :: "orchestrator \<Rightarrow> cycle_io \<Rightarrow> path list \<Rightarrow> orchestrator \<times> (exn + unit)" where
  "log_pending_tasks s io task_files =
     (let log_file = [''Logs'', strftime_date (now_pending_file io) @ ''.md'']
      in case mkdir_parents (o_vault s) (path_parent log_file) of
           Inl e \<Rightarrow> (s, Inl e)
         | Inr v \<Rightarrow>
             (let log_entry = \<lparr>le_timestamp = now_pending_stamp io,
                                le_action_type = ''pending_tasks_detected'',
                                le_count = length task_files,
                                le_items = map path_name task_files,
                                le_next_steps = pending_next_steps\<rparr>
              in case append_text v log_file (LogText log_entry) of
                   (v', Inl e) \<Rightarrow> (s\<lparr>o_vault := v'\<rparr>, Inl e)
                 | (v', Inr u) \<Rightarrow> (s\<lparr>o_vault := v'\<rparr>, Inr ())))"

definition log_approved_actions :: "orchestrator \<Rightarrow> cycle_io \<Rightarrow> path list \<Rightarrow> orchestrator \<times> (exn + unit)" where
  "log_approved_actions s io approved_files =
     (let log_file = [''Logs'', strftime_date (now_approved_file io) @ ''.md''];
          log_entry = \<lparr>le_timestamp = now_approved_stamp io,
                       le_action_type = ''approved_actions_ready'',
                       le_count = length approved_files,
                       le_items = map path_name approved_files,
                       le_next_steps = approved_next_steps\<rparr>
      in case append_text (o_vault s) log_file (LogText log_entry) of
           (v', Inl e) \<Rightarrow> (s\<lparr>o_vault := v'\<rparr>, Inl e)
         | (v', Inr u) \<Rightarrow> (s\<lparr>o_vault := v'\<rparr>, Inr ()))"

text \<open>
  \<open>_invoke_qwen_code\<close>: both \<open>except\<close> clauses end in \<open>_log_pending_tasks\<close>, called
  inside the handler, so what it raises leaves the method.
\<close>

definition invoke_qwen_code :: "orchestrator \<Rightarrow> cycle_io \<Rightarrow> path list \<Rightarrow> orchestrator \<times> (exn + unit)" where
  "invoke_qwen_code s io task_files =
     (case popen_qwen io of
        Inr qwen_pid \<Rightarrow> (s\<lparr>calls := calls s @ [Spawned qwen_pid]\<rparr>, Inr ())
      | Inl e \<Rightarrow>
          if e = FileNotFoundError then log_pending_tasks s io task_files
          else log_pending_tasks s io task_files)"

definition trigger_qwen_code :: "orchestrator \<Rightarrow> cycle_io \<Rightarrow> path list \<Rightarrow> bool \<Rightarrow> orchestrator \<times> (exn + unit)" where
  "trigger_qwen_code s io task_files auto_process =
     (if task_files = [] then (s, Inr ())
      else if auto_process then invoke_qwen_code s io task_files
      else log_pending_tasks s io task_files)"

definition process_approved_actions :: "orchestrator \<Rightarrow> cycle_io \<Rightarrow> path list \<Rightarrow> orchestrator \<times> (exn + unit)" where
  "process_approved_actions s io approved_files =
     (if approved_files = [] then (s, Inr ())
      else log_approved_actions s io approved_files)"

definition run_cycle :: "orchestrator \<Rightarrow> cycle_io \<Rightarrow> orchestrator \<times> (exn + unit)" where
  "run_cycle s io =
     (case check_needs_action s of
        (s1, pending_tasks) \<Rightarrow>
          (case (if pending_tasks \<noteq> [] then trigger_qwen_code s1 io pending_tasks True
                 else (s1, Inr ())) of
             (s2, Inl e) \<Rightarrow> (s2, Inl e)
           | (s2, Inr u) \<Rightarrow>
               (case check_approved_actions s2 of
                  (s3, approved_actions) \<Rightarrow>
                    if approved_actions \<noteq> [] then process_approved_actions s3 io approved_actions
                    else (s3, Inr ()))))"

definition shutdown :: "orchestrator \<Rightarrow> orchestrator" where
  "shutdown s = stop_watcher s"

text \<open>
  The loop of \<open>run\<close>, from its \<open>try\<close> on. Each element of the list is one iteration:
  what the environment answers in the cycle, and whether a termination signal arrives
  before the loop condition is read again. The result is the orchestrator after
  \<open>shutdown\<close> and the exit code; \<open>None\<close> means the loop is still running when the listed
  iterations are over. The sleep between two cycles changes nothing in the state.
\<close>

fun run_loop :: "orchestrator \<Rightarrow> (cycle_io \<times> bool) list \<Rightarrow> (orchestrator \<times> nat) option" where
  "run_loop s [] = (if running s then None else Some (shutdown s, 0))"
| "run_loop s (it # rest) =
     (if \<not> running s then Some (shutdown s, 0)
      else case run_cycle s (fst it) of
             (s1, Inl e) \<Rightarrow> Some (shutdown s1, 1)
           | (s1, Inr u) \<Rightarrow> run_loop (if snd it then s1\<lparr>running := False\<rparr> else s1) rest)"

section \<open>Observations and concrete inputs\<close>

text \<open>
  What a call of \<open>on_created\<close> has added to the log tells what it did: a
  \<open>CreatedActionFile\<close> message is logged exactly when \<open>write_text\<close> has returned, an
  \<open>ErrorProcessing\<close> message exactly when \<open>_create_action_file\<close> has raised.
\<close>

fun is_created :: "log_msg \<Rightarrow> bool" where
  "is_created (CreatedActionFile p) = True"
| "is_created m = False"

fun is_error :: "log_msg \<Rightarrow> bool" where
  "is_error (ErrorProcessing p e) = True"
| "is_error m = False"

definition new_log :: "handler \<Rightarrow> handler \<Rightarrow> log_msg list" where
  "new_log h h' = drop (length (log h)) (log h')"

definition created_record :: "handler \<Rightarrow> handler \<Rightarrow> bool" where
  "created_record h h' = list_ex is_created (new_log h h')"

definition creation_failed :: "handler \<Rightarrow> handler \<Rightarrow> bool" where
  "creation_failed h h' = list_ex is_error (new_log h h')"

text \<open>
  The header of the record \<open>_create_action_file\<close> writes for a source file, read off the
  environment: the metadata of the file when they can be read, the defaults (size 0, the
  current time) otherwise.
\<close>

definition expected_record :: "path \<Rightarrow> source_io \<Rightarrow> action_record" where
  "expected_record source io =
     (case try_metadata io of
        Inr st \<Rightarrow>
          \<lparr>ar_source_file = path_name source, ar_source_path = source,
           ar_file_size = st_size st, ar_created = FromTimestamp (st_ctime st),
           ar_modified = FromTimestamp (st_mtime st), ar_detected = now_detected io\<rparr>
      | Inl e \<Rightarrow>
          \<lparr>ar_source_file = path_name source, ar_source_path = source,
           ar_file_size = 0, ar_created = NowIso (now_default io),
           ar_modified = NowIso (now_default io), ar_detected = now_detected io\<rparr>)"

definition action_path :: "path \<Rightarrow> source_io \<Rightarrow> path" where
  "action_path source io = needs_action @ [action_filename source (now_name io)]"

text \<open>The three filters of \<open>on_created\<close> that look at the event alone.\<close>

definition hidden_name :: "event \<Rightarrow> bool" where
  "hidden_name ev = (startswith (path_name (src_path ev)) ''~'' \<or> startswith (path_name (src_path ev)) ''.'')"

definition outside_drop :: "handler \<Rightarrow> event \<Rightarrow> bool" where
  "outside_drop h ev = (path_parent (src_path ev) \<noteq> drop_path h)"

text \<open>The calls a step of the orchestrator has added.\<close>

definition new_calls :: "orchestrator \<Rightarrow> orchestrator \<Rightarrow> sys_call list" where
  "new_calls s s' = drop (length (calls s)) (calls s')"

text \<open>
  A vault with an empty \<open>Needs_Action\<close> folder, a handler watching \<open>vault/Inbox\<close>, and
  the environment of a source file that can be read (with the given content) and of one
  that has vanished before the handler looks at it.
\<close>

definition t_example :: datetime where
  "t_example = \<lparr>dt_year = 2024, dt_month = 1, dt_day = 5, dt_hour = 9, dt_minute = 3,
                 dt_second = 7, dt_microsecond = 0\<rparr>"

definition vault_example :: vault where
  "vault_example = \<lparr>entries = [([''Needs_Action''], Dir)], write_denied = (\<lambda>p. False),
         write_error = (\<lambda>p c. None)\<rparr>"

definition h_example :: handler where
  "h_example = \<lparr>drop_path = [''vault'', ''Inbox''], processed_files = {},
                 h_vault = vault_example, log = []\<rparr>"

definition io_readable :: "string \<Rightarrow> source_io" where
  "io_readable c =
     \<lparr>open_read = Inr c,
      stat_for_hash = Inr \<lparr>st_size = length c, st_ctime = 100, st_mtime = 200\<rparr>,
      stat_for_meta = Inr \<lparr>st_size = length c, st_ctime = 100, st_mtime = 200\<rparr>,
      fromtimestamp_raises = (\<lambda>t. None),
      copy_read = Inr c,
      now_name = t_example, now_default = t_example, now_detected = t_example\<rparr>"

definition io_gone :: source_io where
  "io_gone =
     \<lparr>open_read = Inl FileNotFoundError,
      stat_for_hash = Inl FileNotFoundError,
      stat_for_meta = Inl FileNotFoundError,
      fromtimestamp_raises = (\<lambda>t. None),
      copy_read = Inl FileNotFoundError,
      now_name = t_example, now_default = t_example, now_detected = t_example\<rparr>"

definition ev_report :: event where
  "ev_report = \<lparr>is_directory = False, src_path = [''vault'', ''Inbox'', ''report.txt'']\<rparr>"

definition h_report :: handler where
  "h_report =
     \<lparr>drop_path = [''vault'', ''Inbox''], processed_files = {Md5Hex ''hello''},
      h_vault =
        \<lparr>entries =
           [([''Needs_Action''], Dir),
            ([''Needs_Action'', ''FILE_DROP_report_txt_20240105_090307.md''],
             File [ActionText \<lparr>ar_source_file = ''report.txt'',
                     ar_source_path = [''vault'', ''Inbox'', ''report.txt''],
                     ar_file_size = 5, ar_created = FromTimestamp 100,
                     ar_modified = FromTimestamp 200, ar_detected = t_example\<rparr>]),
            ([''Needs_Action'', ''report.txt_20240105_090307''], File [RawBytes ''hello''])],
         write_denied = (\<lambda>p. False),
         write_error = (\<lambda>p c. None)\<rparr>,
      log =
        [NewFileDetected [''vault'', ''Inbox'', ''report.txt''],
         CreatedActionFile [''Needs_Action'', ''FILE_DROP_report_txt_20240105_090307.md''],
         CopiedSource [''Needs_Action'', ''report.txt_20240105_090307''],
         Processed [''vault'', ''Inbox'', ''report.txt'']
           [''Needs_Action'', ''FILE_DROP_report_txt_20240105_090307.md'']]\<rparr>"

text \<open>
  A hidden file in the inbox; a source file that cannot be opened, answers \<open>stat\<close> for the
  hash and has vanished when its metadata are read; a handler whose vault refuses every
  write.
\<close>

definition ev_hidden :: event where
  "ev_hidden = \<lparr>is_directory = False, src_path = [''vault'', ''Inbox'', ''.hidden'']\<rparr>"

definition io_unreadable :: source_io where
  "io_unreadable =
     \<lparr>open_read = Inl PermissionError,
      stat_for_hash = Inr \<lparr>st_size = 5, st_ctime = 100, st_mtime = 200\<rparr>,
      stat_for_meta = Inl FileNotFoundError,
      fromtimestamp_raises = (\<lambda>t. None),
      copy_read = Inl FileNotFoundError,
      now_name = t_example, now_default = t_example, now_detected = t_example\<rparr>"

definition h_denied :: handler where
  "h_denied = \<lparr>drop_path = [''vault'', ''Inbox''], processed_files = {},
                h_vault = \<lparr>entries = [([''Needs_Action''], Dir)], write_denied = (\<lambda>p. True),
         write_error = (\<lambda>p c. None)\<rparr>,
                log = []\<rparr>"

text \<open>
  A second file, \<open>report txt\<close>, with another content, handled 650 milliseconds after
  \<open>report.txt\<close>, within the same second.
\<close>

definition t_later :: datetime where
  "t_later = t_example\<lparr>dt_microsecond := 650000\<rparr>"

definition ev_space :: event where
  "ev_space = \<lparr>is_directory = False, src_path = [''vault'', ''Inbox'', ''report txt'']\<rparr>"

definition io_later :: source_io where
  "io_later =
     \<lparr>open_read = Inr ''world'',
      stat_for_hash = Inr \<lparr>st_size = 5, st_ctime = 101, st_mtime = 201\<rparr>,
      stat_for_meta = Inr \<lparr>st_size = 5, st_ctime = 101, st_mtime = 201\<rparr>,
      fromtimestamp_raises = (\<lambda>t. None),
      copy_read = Inr ''world'',
      now_name = t_later, now_default = t_later, now_detected = t_later\<rparr>"

text \<open>
  A handler whose vault lets every file be opened and then refuses the text of every
  record, as for a source name that has no UTF-8 encoding.
\<close>

definition h_strict :: handler where
  "h_strict = \<lparr>drop_path = [''vault'', ''Inbox''], processed_files = {},
                h_vault = \<lparr>entries = [([''Needs_Action''], Dir)], write_denied = (\<lambda>p. False),
                           write_error = (\<lambda>p c. case c of
                                            ActionText rec \<Rightarrow> Some UnicodeEncodeError
                                          | LogText entry \<Rightarrow> None
                                          | RawBytes bytes \<Rightarrow> None)\<rparr>,
                log = []\<rparr>"

text \<open>A file in a subdirectory of the inbox.\<close>

definition ev_nested :: event where
  "ev_nested = \<lparr>is_directory = False, src_path = [''vault'', ''Inbox'', ''sub'', ''notes.txt'']\<rparr>"

text \<open>An orchestrator whose nine folders exist, on a vault that refuses every write.\<close>

definition populated :: orchestrator where
  "populated = \<lparr>o_vault = \<lparr>entries = map (\<lambda>f. ([f], Dir)) folders, write_denied = (\<lambda>p. True),
         write_error = (\<lambda>p c. None)\<rparr>,
                 watcher_process = None, running = False, calls = []\<rparr>"

text \<open>
  The two stages of a cycle as the two halves of \<open>run_cycle\<close>: the scan of a folder
  followed by the handling of what it found.
\<close>

definition needs_action_stage :: "orchestrator \<Rightarrow> cycle_io \<Rightarrow> orchestrator \<times> (exn + unit)" where
  "needs_action_stage s io =
     (case check_needs_action s of
        (s1, pending_tasks) \<Rightarrow>
          if pending_tasks \<noteq> [] then trigger_qwen_code s1 io pending_tasks True else (s1, Inr ()))"

definition approved_stage :: "orchestrator \<Rightarrow> cycle_io \<Rightarrow> orchestrator \<times> (exn + unit)" where
  "approved_stage s io =
     (case check_approved_actions s of
        (s1, approved_actions) \<Rightarrow>
          if approved_actions \<noteq> [] then process_approved_actions s1 io approved_actions
          else (s1, Inr ()))"

text \<open>
  The log file of the pending tasks, and when an entry can be appended to it: the
  \<open>Logs\<close> folder is a directory or can be made, the file is not a directory and may be
  opened for writing, and writing the entry to the open file goes through.
\<close>

definition pending_log_file :: "cycle_io \<Rightarrow> path" where
  "pending_log_file io = [''Logs'', strftime_date (now_pending_file io) @ ''.md'']"

definition can_log :: "vault \<Rightarrow> path \<Rightarrow> chunk \<Rightarrow> bool" where
  "can_log v log_file entry =
     ((is_dir v (path_parent log_file)
        \<or> (node_at v (path_parent log_file) = None \<and> \<not> write_denied v (path_parent log_file)))
      \<and> node_at v log_file \<noteq> Some Dir \<and> \<not> write_denied v log_file
      \<and> write_error v log_file entry = None)"

text \<open>
  An orchestrator in a cycle where \<open>qwen\<close> is not installed: one pending task and one
  approved action wait in a vault whose nine folders exist; in \<open>read_only\<close> the vault
  refuses every write, in \<open>logs_is_file\<close> the name \<open>Logs\<close> is taken by a regular
  file, in \<open>writable\<close> nothing is in the way.
\<close>

definition io_no_qwen :: cycle_io where
  "io_no_qwen = \<lparr>popen_qwen = Inl FileNotFoundError,
                  now_pending_file = t_example, now_pending_stamp = t_example,
                  now_approved_file = t_example, now_approved_stamp = t_example\<rparr>"

definition stage_entries :: "(path \<times> node) list" where
  "stage_entries =
     [([''Needs_Action''], Dir), ([''Needs_Action'', ''task.md''], File []),
      ([''Approved''], Dir), ([''Approved'', ''ok.md''], File [])]"

definition read_only :: orchestrator where
  "read_only = \<lparr>o_vault = \<lparr>entries = stage_entries @ [([''Logs''], Dir)], write_denied = (\<lambda>p. True),
         write_error = (\<lambda>p c. None)\<rparr>,
                 watcher_process = None, running = True, calls = []\<rparr>"

definition logs_is_file :: orchestrator where
  "logs_is_file = \<lparr>o_vault = \<lparr>entries = stage_entries @ [([''Logs''], File [])], write_denied = (\<lambda>p. False),
         write_error = (\<lambda>p c. None)\<rparr>,
                    watcher_process = None, running = True, calls = []\<rparr>"

definition writable :: orchestrator where
  "writable = \<lparr>o_vault = \<lparr>entries = stage_entries @ [([''Logs''], Dir)], write_denied = (\<lambda>p. False),
         write_error = (\<lambda>p c. None)\<rparr>,
                watcher_process = None, running = True, calls = []\<rparr>"

text \<open>
  A pending task whose name, \<open>caf\<close> followed by the byte E9 and \<open>.md\<close>, is not valid
  UTF-8, in a vault where everything may be opened: writing a log entry that lists the
  name raises \<open>UnicodeEncodeError\<close>.
\<close>

definition latin_md :: string where
  "latin_md = ''caf'' @ [CHR 0xE9] @ ''.md''"

definition unencodable :: orchestrator where
  "unencodable =
     \<lparr>o_vault = \<lparr>entries = [([''Needs_Action''], Dir), ([''Needs_Action'', latin_md], File []),
                             ([''Logs''], Dir)],
                  write_denied = (\<lambda>p. False),
                  write_error = (\<lambda>p c. case c of
                                   LogText entry \<Rightarrow>
                                     if latin_md \<in> set (le_items entry) then Some UnicodeEncodeError
                                     else None
                                 | ActionText rec \<Rightarrow> None
                                 | RawBytes bytes \<Rightarrow> None)\<rparr>,
      watcher_process = None, running = True, calls = []\<rparr>"

text \<open>An orchestrator supervising a watcher that ignores the termination request.\<close>

definition stubborn :: orchestrator where
  "stubborn = \<lparr>o_vault = vault_example,
                watcher_process = Some \<lparr>pid = 7, exit_after_term = None\<rparr>,
                running = True, calls = []\<rparr>"

text \<open>An orchestrator looking at the vault the example handler has left.\<close>

definition after_drop :: orchestrator where
  "after_drop = \<lparr>o_vault = h_vault h_report, watcher_process = None, running = True, calls = []\<rparr>"

text \<open>
  Two clock readings agree up to the second; the fields of a reading have the widths
  \<open>strftime\<close> prints them in, as those of every \<open>datetime\<close> have.
\<close>

definition same_second :: "datetime \<Rightarrow> datetime \<Rightarrow> bool" where
  "same_second t1 t2 =
     (dt_year t1 = dt_year t2 \<and> dt_month t1 = dt_month t2 \<and> dt_day t1 = dt_day t2 \<and>
      dt_hour t1 = dt_hour t2 \<and> dt_minute t1 = dt_minute t2 \<and> dt_second t1 = dt_second t2)"

definition clock_in_range :: "datetime \<Rightarrow> bool" where
  "clock_in_range t =
     (dt_year t < 10000 \<and> dt_month t < 100 \<and> dt_day t < 100 \<and>
      dt_hour t < 100 \<and> dt_minute t < 100 \<and> dt_second t < 100)"

text \<open>The number a string of decimal digits stands for, read from its last digit.\<close>

definition digit_of :: "char \<Rightarrow> nat" where
  "digit_of c = length (takeWhile (\<lambda>x. x \<noteq> c) ''0123456789'') mod 10"

fun rval :: "string \<Rightarrow> nat" where
  "rval [] = 0"
| "rval (c # cs) = digit_of c + 10 * rval cs"

text \<open>A reading of the clock one second after the example, and a cycle in which \<open>qwen\<close> starts.\<close>

definition t_next :: datetime where
  "t_next = t_example\<lparr>dt_second := 8\<rparr>"

definition io_qwen :: cycle_io where
  "io_qwen = io_no_qwen\<lparr>popen_qwen := Inr 42\<rparr>"


section \<open>Auxiliary facts\<close>

subsection \<open>The file system\<close>

lemma map_of_store: "map_of (store p n es) q = (if q = p then Some n else map_of es q)"
  by (induction es) auto

lemma node_at_root [simp]: "node_at v [] = Some Dir"
  by (simp add: node_at_def)

lemma node_at_put: "p \<noteq> [] \<Longrightarrow> node_at (put v p n) q = (if q = p then Some n else node_at v q)"
  by (auto simp: node_at_def put_def map_of_store)

lemma write_denied_put [simp]: "write_denied (put v p n) = write_denied v"
  by (simp add: put_def)

lemma write_error_put [simp]: "write_error (put v p n) = write_error v"
  by (simp add: put_def)

lemma mkdir_parents_existing: "is_dir v [f] \<Longrightarrow> mkdir_parents v [f] = Inr v"
  by (simp add: mkdir_parents.simps os_mkdir_def path_parent_def is_dir_def)

lemma mkdir_parents_single:
  "mkdir_parents v [f] = Inr v' \<Longrightarrow> is_dir v' [f] \<and> (\<forall>g. is_dir v [g] \<longrightarrow> is_dir v' [g])"
  by (auto simp: mkdir_parents.simps os_mkdir_def path_parent_def is_dir_def node_at_put
      split: option.splits node.splits if_splits)

lemma mkdir_all_existing: "\<forall>f \<in> set fs. is_dir v [f] \<Longrightarrow> mkdir_all v fs = (v, Inr ())"
  by (induction fs) (auto simp: mkdir_parents_existing)

lemma mkdir_all_keeps:
  "mkdir_all v fs = (v', Inr ()) \<Longrightarrow> is_dir v [g] \<Longrightarrow> is_dir v' [g]"
proof (induction fs arbitrary: v)
  case Nil
  then show ?case by simp
next
  case (Cons f fs)
  then obtain v1 where m: "mkdir_parents v [f] = Inr v1" and r: "mkdir_all v1 fs = (v', Inr ())"
    by (auto split: sum.splits)
  from m Cons.prems(2) have "is_dir v1 [g]" using mkdir_parents_single by blast
  with r show ?case using Cons.IH by blast
qed

lemma mkdir_all_makes:
  "mkdir_all v fs = (v', Inr ()) \<Longrightarrow> \<forall>f \<in> set fs. is_dir v' [f]"
proof (induction fs arbitrary: v)
  case Nil
  then show ?case by simp
next
  case (Cons f fs)
  then obtain v1 where m: "mkdir_parents v [f] = Inr v1" and r: "mkdir_all v1 fs = (v', Inr ())"
    by (auto split: sum.splits)
  from m have "is_dir v1 [f]" using mkdir_parents_single by blast
  with r have "is_dir v' [f]" using mkdir_all_keeps by blast
  moreover from r have "\<forall>f \<in> set fs. is_dir v' [f]" using Cons.IH by blast
  ultimately show ?case by simp
qed

lemma glob_md_member:
  "p \<in> set (glob_md v d) \<Longrightarrow> p \<noteq> [] \<and> path_parent p = d \<and> endswith (path_name p) ''.md''"
  by (auto simp: glob_md_def split: if_splits)

subsection \<open>Names\<close>

lemma digit_char_in: "digit_char d \<in> set ''0123456789''"
proof -
  have "d mod 10 < length ''0123456789''" by simp
  then show ?thesis unfolding digit_char_def by (rule nth_mem)
qed

lemma digits_last: "digits n \<noteq> [] \<and> last (digits n) = digit_char (n mod 10)"
  by (subst (1 2) digits.simps) simp

lemma zfill_last: "zfill w n \<noteq> [] \<and> last (zfill w n) = digit_char (n mod 10)"
  using digits_last [of n] by (simp add: zfill_def)

lemma strftime_stamp_last:
  "strftime_stamp t \<noteq> [] \<and> last (strftime_stamp t) = digit_char (dt_second t mod 10)"
  using zfill_last [of 2 "dt_second t"] by (simp add: strftime_stamp_def)

lemma endswith_md_last: "endswith s ''.md'' \<Longrightarrow> s \<noteq> [] \<and> last s = CHR ''d''"
proof -
  assume a: "endswith s ''.md''"
  then have l: "3 \<le> length s" and d: "drop (length s - 3) s = ''.md''"
    by (simp_all add: endswith_def numeral_3_eq_3)
  from l have ne: "s \<noteq> []" by auto
  from l have "length s - 3 < length s" by simp
  then have "last (drop (length s - 3) s) = last s" by (rule last_drop)
  with d ne show ?thesis by simp
qed

lemma copy_name_not_md: "\<not> endswith (copy_name source t) ''.md''"
proof
  assume "endswith (copy_name source t) ''.md''"
  then have "last (copy_name source t) = CHR ''d''" using endswith_md_last by blast
  moreover have "last (copy_name source t) = digit_char (dt_second t mod 10)"
    using strftime_stamp_last [of t] by (simp add: copy_name_def)
  ultimately have "digit_char (dt_second t mod 10) = CHR ''d''" by simp
  with digit_char_in [of "dt_second t mod 10"] show False by simp
qed

lemma stamp_example: "strftime_stamp t_example = ''20240105_090307''"
  by code_simp

lemma action_filename_report:
  "action_filename [''vault'', ''Inbox'', ''report.txt''] t_example
     = ''FILE_DROP_report_txt_20240105_090307.md''"
  by (simp add: action_filename_def safe_name_def replace_char_def path_name_def stamp_example)

lemma copy_name_report:
  "copy_name [''vault'', ''Inbox'', ''report.txt''] t_example = ''report.txt_20240105_090307''"
  by (simp add: copy_name_def path_name_def stamp_example)

lemma suffix_report: "lower (path_suffix [''vault'', ''Inbox'', ''report.txt'']) \<in> set text_extensions"
  by (simp add: path_suffix_def path_name_def lower_def lower_char_def text_extensions_def)

lemma endswith_append [simp]: "endswith (xs @ suf) suf"
  by (simp add: endswith_def)

lemma action_filename_md: "endswith (action_filename source t) ''.md''"
proof -
  have "action_filename source t = (''FILE_DROP_'' @ safe_name source @ ''_'' @ strftime_stamp t) @ ''.md''"
    by (simp add: action_filename_def)
  then show ?thesis by (simp only: endswith_append)
qed

lemma action_filename_neq_copy_name: "action_filename source t \<noteq> copy_name source' t'"
  using action_filename_md [of source t] copy_name_not_md [of source' t'] by auto

subsection \<open>The drop detector\<close>

lemma write_text_other: "q \<noteq> p \<Longrightarrow> node_at (fst (write_text v p c)) q = node_at v q"
  by (cases "p = []")
     (auto simp: write_text_def open_for_write_def path_parent_def node_at_put
       split: sum.splits option.splits node.splits)

lemma write_text_written:
  "snd (write_text v p c) = Inr () \<Longrightarrow> node_at (fst (write_text v p c)) p = Some (File [c])"
  by (cases "p = []")
     (auto simp: write_text_def open_for_write_def path_parent_def node_at_put
       split: sum.splits option.splits node.splits if_splits)

lemma copy2_keeps: "n \<noteq> a \<Longrightarrow> node_at (fst (copy2 v source io [d, n])) [d, a] = node_at v [d, a]"
  by (simp add: copy2_def write_text_other split: sum.splits)

lemma create_action_file_fails:
  "snd (write_text (h_vault h) (action_path source io) (ActionText (expected_record source io))) = Inl e \<Longrightarrow>
     snd (create_action_file h source io) = Inl e \<and>
     h_vault (fst (create_action_file h source io))
       = fst (write_text (h_vault h) (action_path source io) (ActionText (expected_record source io)))"
  by (auto simp: create_action_file_def action_path_def expected_record_def Let_def
      split: sum.splits prod.splits)

lemma create_action_file_writes:
  assumes "snd (write_text (h_vault h) (action_path source io) (ActionText (expected_record source io))) = Inr ()"
  shows "snd (create_action_file h source io) = Inr (action_path source io)
     \<and> node_at (h_vault (fst (create_action_file h source io))) (action_path source io)
           = Some (File [ActionText (expected_record source io)])"
proof -
  let ?ap = "needs_action @ [action_filename source (now_name io)]"
  let ?c = "ActionText (expected_record source io)"
  obtain v where w: "write_text (h_vault h) ?ap ?c = (v, Inr ())"
    using assms by (cases "write_text (h_vault h) ?ap ?c") (simp add: action_path_def)
  have n: "node_at v ?ap = Some (File [?c])"
    using write_text_written [of "h_vault h" ?ap ?c] w by simp
  have k: "node_at (fst (copy2 v source io (needs_action @ [copy_name source (now_name io)]))) ?ap
             = Some (File [?c])"
    using copy2_keeps [of "copy_name source (now_name io)" "action_filename source (now_name io)"
        v source io "''Needs_Action''"]
      n action_filename_neq_copy_name [of source "now_name io" source "now_name io"]
    by (simp add: needs_action_def)
  have r: "snd (create_action_file h source io) = Inr ?ap"
    using w by (auto simp: create_action_file_def expected_record_def Let_def
        split: sum.splits prod.splits)
  have "node_at (h_vault (fst (create_action_file h source io))) ?ap = Some (File [?c])"
    using w n k
    by (auto simp: create_action_file_def expected_record_def Let_def split: sum.splits prod.splits)
  with r show ?thesis by (simp add: action_path_def)
qed

lemma on_created_seen:
  "get_file_hash md5 io = Inr fp \<Longrightarrow> fp \<in> processed_files h \<Longrightarrow> on_created md5 h ev io = (h, Inr ())"
  by (simp add: on_created_def)

lemma create_action_file_log:
  "create_action_file h source io = (h', r) \<Longrightarrow>
     processed_files h' = processed_files h \<and> drop_path h' = drop_path h \<and>
     (\<exists>ms. log h' = log h @ ms \<and> (list_ex is_created ms \<longleftrightarrow> (\<exists>p. r = Inr p)) \<and> \<not> list_ex is_error ms)"
  by (auto simp: create_action_file_def Let_def split: sum.splits if_splits prod.splits)

lemma on_created_created:
  assumes "get_file_hash md5 io = Inr fp"
    and "created_record h (fst (on_created md5 h ev io))"
  shows "fp \<in> processed_files (fst (on_created md5 h ev io))"
proof -
  obtain h1 r where c: "create_action_file (h\<lparr>log := log h @ [NewFileDetected (src_path ev)]\<rparr>) (src_path ev) io = (h1, r)"
    by (cases "create_action_file (h\<lparr>log := log h @ [NewFileDetected (src_path ev)]\<rparr>) (src_path ev) io") auto
  from create_action_file_log [OF c] obtain ms where
    l: "log h1 = log h @ NewFileDetected (src_path ev) # ms" and cr: "list_ex is_created ms \<longleftrightarrow> (\<exists>p. r = Inr p)"
    by auto
  show ?thesis
    using assms c l cr
    by (auto simp: on_created_def Let_def created_record_def new_log_def split: if_splits sum.splits)
qed

lemma on_created_mono: "processed_files h \<subseteq> processed_files (fst (on_created md5 h ev io))"
proof -
  obtain h1 r where c: "create_action_file (h\<lparr>log := log h @ [NewFileDetected (src_path ev)]\<rparr>) (src_path ev) io = (h1, r)"
    by (cases "create_action_file (h\<lparr>log := log h @ [NewFileDetected (src_path ev)]\<rparr>) (src_path ev) io") auto
  from create_action_file_log [OF c] have "processed_files h1 = processed_files h" by simp
  with c show ?thesis
    by (auto simp: on_created_def Let_def split: if_splits sum.splits)
qed

lemma run_events_mono: "processed_files h \<subseteq> processed_files (run_events md5 h es)"
proof (induction es arbitrary: h)
  case Nil
  show ?case by simp
next
  case (Cons e es)
  have "processed_files h \<subseteq> processed_files (fst (on_created md5 h (fst e) (snd e)))"
    by (rule on_created_mono)
  also have "\<dots> \<subseteq> processed_files (run_events md5 (fst (on_created md5 h (fst e) (snd e))) es)"
    by (rule Cons.IH)
  finally show ?case by simp
qed

lemma new_log_self [simp]: "new_log h h = []"
  by (simp add: new_log_def)

lemma on_created_passes:
  assumes "\<not> is_directory ev" and "get_file_hash md5 io = Inr fp" and "fp \<notin> processed_files h"
    and "\<not> hidden_name ev" and "\<not> outside_drop h ev"
  shows "on_created md5 h ev io =
     (case create_action_file (h\<lparr>log := log h @ [NewFileDetected (src_path ev)]\<rparr>) (src_path ev) io of
        (h1, Inr ap) \<Rightarrow>
          (h1\<lparr>processed_files := insert fp (processed_files h1),
              log := log h1 @ [Processed (src_path ev) ap]\<rparr>, Inr ())
      | (h1, Inl e) \<Rightarrow> (h1\<lparr>log := log h1 @ [ErrorProcessing (src_path ev) e]\<rparr>, Inr ()))"
  using assms by (simp add: on_created_def hidden_name_def outside_drop_def Let_def)

lemma on_created_skips:
  assumes "is_directory ev \<or> (\<exists>e. get_file_hash md5 io = Inl e)
     \<or> (\<exists>fp. get_file_hash md5 io = Inr fp \<and> (fp \<in> processed_files h \<or> hidden_name ev \<or> outside_drop h ev))"
  shows "fst (on_created md5 h ev io) = h"
  using assms by (auto simp: on_created_def hidden_name_def outside_drop_def Let_def)

text \<open>What a call that reaches \<open>_create_action_file\<close> leaves, by the outcome of the write.\<close>

lemma on_created_write_fails:
  assumes "\<not> is_directory ev" and "get_file_hash md5 io = Inr fp" and "fp \<notin> processed_files h"
    and "\<not> hidden_name ev" and "\<not> outside_drop h ev"
    and "snd (write_text (h_vault h) (action_path (src_path ev) io)
               (ActionText (expected_record (src_path ev) io))) = Inl e"
  shows "snd (on_created md5 h ev io) = Inr ()
     \<and> processed_files (fst (on_created md5 h ev io)) = processed_files h
     \<and> drop_path (fst (on_created md5 h ev io)) = drop_path h
     \<and> h_vault (fst (on_created md5 h ev io))
          = fst (write_text (h_vault h) (action_path (src_path ev) io)
                  (ActionText (expected_record (src_path ev) io)))
     \<and> creation_failed h (fst (on_created md5 h ev io))
     \<and> \<not> created_record h (fst (on_created md5 h ev io))"
proof -
  let ?h0 = "h\<lparr>log := log h @ [NewFileDetected (src_path ev)]\<rparr>"
  obtain h1 r where c: "create_action_file ?h0 (src_path ev) io = (h1, r)"
    by (cases "create_action_file ?h0 (src_path ev) io") auto
  from assms(6) have "snd (write_text (h_vault ?h0) (action_path (src_path ev) io)
               (ActionText (expected_record (src_path ev) io))) = Inl e" by simp
  from create_action_file_fails [OF this] c have r: "r = Inl e"
    and v: "h_vault h1 = fst (write_text (h_vault h) (action_path (src_path ev) io)
                  (ActionText (expected_record (src_path ev) io)))"
    by simp_all
  from create_action_file_log [OF c] r obtain ms where
    p: "processed_files h1 = processed_files h" and d: "drop_path h1 = drop_path h"
    and l: "log h1 = log h @ NewFileDetected (src_path ev) # ms"
    and nc: "\<not> list_ex is_created ms" and ne: "\<not> list_ex is_error ms"
    by auto
  show ?thesis
    using on_created_passes [OF assms(1-5)] c r v p d l nc ne
    by (simp add: creation_failed_def created_record_def new_log_def)
qed

lemma on_created_write_succeeds:
  assumes "\<not> is_directory ev" and "get_file_hash md5 io = Inr fp" and "fp \<notin> processed_files h"
    and "\<not> hidden_name ev" and "\<not> outside_drop h ev"
    and "snd (write_text (h_vault h) (action_path (src_path ev) io)
               (ActionText (expected_record (src_path ev) io))) = Inr ()"
  shows "snd (on_created md5 h ev io) = Inr ()
     \<and> processed_files (fst (on_created md5 h ev io)) = insert fp (processed_files h)
     \<and> drop_path (fst (on_created md5 h ev io)) = drop_path h
     \<and> node_at (h_vault (fst (on_created md5 h ev io))) (action_path (src_path ev) io)
          = Some (File [ActionText (expected_record (src_path ev) io)])
     \<and> created_record h (fst (on_created md5 h ev io))
     \<and> \<not> creation_failed h (fst (on_created md5 h ev io))"
proof -
  let ?h0 = "h\<lparr>log := log h @ [NewFileDetected (src_path ev)]\<rparr>"
  obtain h1 r where c: "create_action_file ?h0 (src_path ev) io = (h1, r)"
    by (cases "create_action_file ?h0 (src_path ev) io") auto
  from assms(6) have "snd (write_text (h_vault ?h0) (action_path (src_path ev) io)
               (ActionText (expected_record (src_path ev) io))) = Inr ()" by simp
  from create_action_file_writes [OF this] c
  have r: "r = Inr (action_path (src_path ev) io)"
    and v: "node_at (h_vault h1) (action_path (src_path ev) io)
              = Some (File [ActionText (expected_record (src_path ev) io)])"
    by simp_all
  from create_action_file_log [OF c] r obtain ms where
    p: "processed_files h1 = processed_files h" and d: "drop_path h1 = drop_path h"
    and l: "log h1 = log h @ NewFileDetected (src_path ev) # ms"
    and nc: "list_ex is_created ms" and ne: "\<not> list_ex is_error ms"
    by auto
  show ?thesis
    using on_created_passes [OF assms(1-5)] c r v p d l nc ne
    by (simp add: creation_failed_def created_record_def new_log_def)
qed

text \<open>
  The end-to-end scenario: \<open>report.txt\<close> with content \<open>hello\<close> is dropped into the
  inbox of the example handler.
\<close>

lemma on_created_report:
  "on_created (\<lambda>s. s) h_example ev_report (io_readable ''hello'') = (h_report, Inr ())"
  using suffix_report
  by (simp add: on_created_def h_example_def ev_report_def io_readable_def get_file_hash_def
     create_action_file_def Let_def path_name_def path_parent_def startswith_def write_text_def
     open_for_write_def node_at_def needs_action_def vault_example_def put_def try_metadata_def
     action_filename_report copy_name_report copy2_def is_dir_def h_report_def)

lemma report_passes:
  "\<not> is_directory ev_report \<and> \<not> hidden_name ev_report \<and> \<not> outside_drop h_example ev_report
   \<and> \<not> outside_drop h_denied ev_report \<and> \<not> outside_drop h_strict ev_report"
  by (simp add: ev_report_def hidden_name_def outside_drop_def h_example_def h_denied_def
      h_strict_def path_name_def path_parent_def startswith_def)

lemma action_path_report:
  "action_path (src_path ev_report) io_unreadable = [''Needs_Action'', ''FILE_DROP_report_txt_20240105_090307.md'']"
  "action_path (src_path ev_report) (io_readable c) = [''Needs_Action'', ''FILE_DROP_report_txt_20240105_090307.md'']"
  by (simp_all add: action_path_def ev_report_def io_unreadable_def io_readable_def needs_action_def
      action_filename_report)

lemma write_text_example:
  "write_text vault_example [''Needs_Action'', ''FILE_DROP_report_txt_20240105_090307.md''] c
     = (put vault_example [''Needs_Action'', ''FILE_DROP_report_txt_20240105_090307.md''] (File [c]),
        Inr ())"
  by (simp add: write_text_def open_for_write_def vault_example_def node_at_def path_parent_def)

lemma write_text_denied:
  "write_text (h_vault h_denied) [''Needs_Action'', ''FILE_DROP_report_txt_20240105_090307.md''] c
     = (h_vault h_denied, Inl PermissionError)"
  by (simp add: write_text_def open_for_write_def h_denied_def node_at_def path_parent_def)

lemma write_text_strict:
  "write_text (h_vault h_strict) [''Needs_Action'', ''FILE_DROP_report_txt_20240105_090307.md'']
       (ActionText rec)
     = (put (h_vault h_strict) [''Needs_Action'', ''FILE_DROP_report_txt_20240105_090307.md'']
          (File []),
        Inl UnicodeEncodeError)"
  by (simp add: write_text_def open_for_write_def h_strict_def node_at_def path_parent_def)

lemma hidden_passes_directory: "\<not> is_directory ev_hidden \<and> hidden_name ev_hidden \<and> \<not> outside_drop h_example ev_hidden"
  by (simp add: ev_hidden_def hidden_name_def outside_drop_def h_example_def
      path_name_def path_parent_def startswith_def)

lemma strftime_stamp_microsecond: "strftime_stamp (t\<lparr>dt_microsecond := m\<rparr>) = strftime_stamp t"
  by (simp add: strftime_stamp_def)

lemma stamp_later: "strftime_stamp t_later = ''20240105_090307''"
  by (simp add: t_later_def strftime_stamp_microsecond stamp_example)

lemma action_filename_space:
  "action_filename [''vault'', ''Inbox'', ''report txt''] t_later
     = ''FILE_DROP_report_txt_20240105_090307.md''"
  by (simp add: action_filename_def safe_name_def replace_char_def path_name_def stamp_later)

lemma space_passes:
  "\<not> is_directory ev_space \<and> \<not> hidden_name ev_space \<and> \<not> outside_drop h_report ev_space"
  by (simp add: ev_space_def hidden_name_def outside_drop_def h_report_def
      path_name_def path_parent_def startswith_def)

lemma write_text_report:
  "snd (write_text (h_vault h_report)
          [''Needs_Action'', ''FILE_DROP_report_txt_20240105_090307.md''] c) = Inr ()"
  by (simp add: write_text_def open_for_write_def h_report_def node_at_def path_parent_def)

subsection \<open>The stage scans\<close>

lemma snd_check_needs_action:
  "snd (check_needs_action s) =
     (if path_exists (o_vault s) [''Needs_Action''] then glob_md (o_vault s) [''Needs_Action''] else [])"
  by (simp add: check_needs_action_def Let_def)

lemma snd_check_approved_actions:
  "snd (check_approved_actions s) =
     (if path_exists (o_vault s) [''Approved''] then glob_md (o_vault s) [''Approved''] else [])"
  by (simp add: check_approved_actions_def Let_def)

lemma needs_action_after_drop:
  "snd (check_needs_action after_drop) = [[''Needs_Action'', ''FILE_DROP_report_txt_20240105_090307.md'']]"
  by (simp add: snd_check_needs_action after_drop_def h_report_def path_exists_def node_at_def
      glob_md_def is_dir_def path_parent_def path_name_def endswith_def)

subsection \<open>The cycle\<close>

lemma date_example: "strftime_date t_example = ''2024-01-05''"
  by code_simp

text \<open>Calls are only ever appended.\<close>

lemma log_pending_tasks_calls [simp]: "calls (fst (log_pending_tasks s io fs)) = calls s"
  by (simp add: log_pending_tasks_def Let_def split: sum.splits prod.splits)

lemma log_approved_actions_calls [simp]: "calls (fst (log_approved_actions s io fs)) = calls s"
  by (simp add: log_approved_actions_def Let_def split: sum.splits prod.splits)

lemma needs_action_stage_calls:
  "\<exists>cs. calls (fst (needs_action_stage s io)) = calls s @ PathExists [''Needs_Action''] # cs
        \<and> PathExists [''Approved''] \<notin> set cs"
  by (auto simp: needs_action_stage_def check_needs_action_def trigger_qwen_code_def
      invoke_qwen_code_def Let_def split: sum.splits)

lemma approved_stage_calls:
  "\<exists>cs. calls (fst (approved_stage s io)) = calls s @ PathExists [''Approved''] # cs"
  by (auto simp: approved_stage_def check_approved_actions_def process_approved_actions_def Let_def)

lemma run_cycle_stages:
  "run_cycle s io =
     (case needs_action_stage s io of
        (s2, Inl e) \<Rightarrow> (s2, Inl e)
      | (s2, Inr u) \<Rightarrow> approved_stage s2 io)"
  by (simp add: run_cycle_def needs_action_stage_def approved_stage_def split: prod.splits sum.splits)


lemma mkdir_parents_top:
  "mkdir_parents v [f] =
     (case node_at v [f] of
        Some Dir \<Rightarrow> Inr v
      | Some (File cs) \<Rightarrow> Inl FileExistsError
      | None \<Rightarrow> if write_denied v [f] then Inl PermissionError else Inr (put v [f] Dir))"
  by (simp add: mkdir_parents.simps os_mkdir_def path_parent_def is_dir_def
      split: option.splits node.splits)

lemma new_calls_append [simp]: "calls s' = calls s @ cs \<Longrightarrow> new_calls s s' = cs"
  by (simp add: new_calls_def)


lemma pending_log_file_example: "pending_log_file io_no_qwen = [''Logs'', ''2024-01-05.md'']"
  by (simp add: pending_log_file_def io_no_qwen_def date_example)

lemma glob_stage_entries:
  "entries v = stage_entries @ [([''Logs''], n)] \<Longrightarrow>
     path_exists v [''Needs_Action''] \<and> glob_md v [''Needs_Action''] = [[''Needs_Action'', ''task.md'']]
     \<and> path_exists v [''Approved''] \<and> glob_md v [''Approved''] = [[''Approved'', ''ok.md'']]"
  by (simp add: stage_entries_def path_exists_def node_at_def glob_md_def is_dir_def
      path_parent_def path_name_def endswith_def)

lemma needs_action_stage_read_only:
  "needs_action_stage read_only io_no_qwen
     = (read_only\<lparr>calls := [PathExists [''Needs_Action''], Glob [''Needs_Action'']]\<rparr>, Inl PermissionError)"
proof -
  have e: "entries (o_vault read_only) = stage_entries @ [([''Logs''], Dir)]" by (simp add: read_only_def)
  have l: "log_pending_tasks (read_only\<lparr>calls := [PathExists [''Needs_Action''], Glob [''Needs_Action'']]\<rparr>)
             io_no_qwen [[''Needs_Action'', ''task.md'']]
           = (read_only\<lparr>calls := [PathExists [''Needs_Action''], Glob [''Needs_Action'']]\<rparr>, Inl PermissionError)"
    using pending_log_file_example
    by (simp add: log_pending_tasks_def pending_log_file_def path_parent_def mkdir_parents_top
        read_only_def stage_entries_def node_at_def append_text_def open_for_write_def)
  show ?thesis
    using glob_stage_entries [OF e] l
    by (simp add: needs_action_stage_def check_needs_action_def trigger_qwen_code_def
        invoke_qwen_code_def io_no_qwen_def read_only_def Let_def)
qed


lemma log_pending_tasks_result:
  "(snd (log_pending_tasks s io task_files) = Inr ()
      \<longleftrightarrow> can_log (o_vault s) (pending_log_file io)
            (LogText \<lparr>le_timestamp = now_pending_stamp io,
                      le_action_type = ''pending_tasks_detected'',
                      le_count = length task_files,
                      le_items = map path_name task_files,
                      le_next_steps = pending_next_steps\<rparr>))
   \<and> (snd (log_pending_tasks s io task_files) = Inr () \<longrightarrow>
        node_at (o_vault (fst (log_pending_tasks s io task_files))) (pending_log_file io)
          = Some (File ((case node_at (o_vault s) (pending_log_file io) of
                           Some (File cs) \<Rightarrow> cs | _ \<Rightarrow> [])
                        @ [LogText \<lparr>le_timestamp = now_pending_stamp io,
                                   le_action_type = ''pending_tasks_detected'',
                                   le_count = length task_files,
                                   le_items = map path_name task_files,
                                   le_next_steps = pending_next_steps\<rparr>])))"
  by (auto simp: log_pending_tasks_def pending_log_file_def can_log_def path_parent_def
      mkdir_parents_top append_text_def open_for_write_def is_dir_def node_at_put Let_def
      split: option.splits node.splits sum.splits if_splits)

subsection \<open>Digits\<close>

lemma digit_of_digit_char: "digit_of (digit_char d) = d mod 10"
proof -
  have "\<forall>k \<in> set [0..<10]. digit_of (''0123456789'' ! k) = k"
    by code_simp
  moreover have "d mod 10 \<in> set [0..<10]" by simp
  ultimately show ?thesis unfolding digit_char_def by blast
qed

lemma digits_small: "n < 10 \<Longrightarrow> digits n = [digit_char n]"
  by (subst digits.simps) simp

lemma digits_large: "\<not> n < 10 \<Longrightarrow> digits n = digits (n div 10) @ [digit_char (n mod 10)]"
  by (subst digits.simps) simp

lemma rval_rev_digits: "rval (rev (digits n)) = n"
proof (induction n rule: digits.induct)
  case (1 n)
  show ?case
  proof (cases "n < 10")
    case True
    then show ?thesis by (simp add: digits_small digit_of_digit_char)
  next
    case False
    with "1" have "rval (rev (digits (n div 10))) = n div 10" by simp
    with False show ?thesis by (simp add: digits_large digit_of_digit_char)
  qed
qed

lemma rval_zeros: "rval (xs @ replicate k CHR ''0'') = rval xs"
proof (induction xs)
  case Nil
  show ?case by (induction k) (simp_all add: digit_of_def)
next
  case (Cons x xs)
  then show ?case by simp
qed

lemma rval_rev_zfill: "rval (rev (zfill w n)) = n"
  by (simp add: zfill_def rval_zeros rval_rev_digits)

lemma zfill_inj:
  assumes "zfill w n = zfill w m"
  shows "n = m"
proof -
  have "n = rval (rev (zfill w n))" by (simp only: rval_rev_zfill)
  also have "\<dots> = rval (rev (zfill w m))" by (simp only: assms)
  also have "\<dots> = m" by (simp only: rval_rev_zfill)
  finally show ?thesis .
qed

lemma length_digits_le: "n < 10 ^ Suc j \<Longrightarrow> length (digits n) \<le> Suc j"
proof (induction j arbitrary: n)
  case 0
  then have "n < 10" by simp
  then show ?case by (simp add: digits_small)
next
  case (Suc j)
  show ?case
  proof (cases "n < 10")
    case True
    then show ?thesis by (simp add: digits_small)
  next
    case False
    from Suc.prems have "n < 10 ^ Suc j * 10" by (simp only: power_Suc mult.commute)
    then have "n div 10 < 10 ^ Suc j" by (rule less_mult_imp_div_less)
    then have "length (digits (n div 10)) \<le> Suc j" by (rule Suc.IH)
    with False show ?thesis by (simp add: digits_large)
  qed
qed

lemma length_zfill_2: "n < 100 \<Longrightarrow> length (zfill 2 n) = 2"
  using length_digits_le [of n 1] by (simp add: zfill_def)

lemma length_zfill_4: "n < 10000 \<Longrightarrow> length (zfill 4 n) = 4"
  using length_digits_le [of n 3] by (simp add: zfill_def)

lemma length_stamp: "clock_in_range t \<Longrightarrow> length (strftime_stamp t) = 15"
  by (simp add: strftime_stamp_def clock_in_range_def length_zfill_2 length_zfill_4)

lemma stamp_inj:
  assumes "clock_in_range t1" and "clock_in_range t2"
    and "strftime_stamp t1 = strftime_stamp t2"
  shows "same_second t1 t2"
proof -
  have l: "length (zfill 4 (dt_year t1)) = length (zfill 4 (dt_year t2))"
    "length (zfill 2 (dt_month t1)) = length (zfill 2 (dt_month t2))"
    "length (zfill 2 (dt_day t1)) = length (zfill 2 (dt_day t2))"
    "length (zfill 2 (dt_hour t1)) = length (zfill 2 (dt_hour t2))"
    "length (zfill 2 (dt_minute t1)) = length (zfill 2 (dt_minute t2))"
    using assms(1,2) by (simp_all add: clock_in_range_def length_zfill_2 length_zfill_4)
  from assms(3) l have
    "zfill 4 (dt_year t1) = zfill 4 (dt_year t2)" "zfill 2 (dt_month t1) = zfill 2 (dt_month t2)"
    "zfill 2 (dt_day t1) = zfill 2 (dt_day t2)" "zfill 2 (dt_hour t1) = zfill 2 (dt_hour t2)"
    "zfill 2 (dt_minute t1) = zfill 2 (dt_minute t2)" "zfill 2 (dt_second t1) = zfill 2 (dt_second t2)"
    by (simp_all add: strftime_stamp_def)
  then show ?thesis by (auto simp: same_second_def dest: zfill_inj)
qed

lemma stamp_same_second: "same_second t1 t2 \<Longrightarrow> strftime_stamp t1 = strftime_stamp t2"
  by (simp add: same_second_def strftime_stamp_def)


subsection \<open>Waiting and shutting down\<close>

lemma needs_action_stage_never_waits:
  "sum_list (map blocking_ms (new_calls s (fst (needs_action_stage s io)))) = 0"
  by (auto simp: needs_action_stage_def check_needs_action_def trigger_qwen_code_def
      invoke_qwen_code_def new_calls_def Let_def split: sum.splits)

lemma approved_stage_never_waits:
  "sum_list (map blocking_ms (new_calls s (fst (approved_stage s io)))) = 0"
  by (auto simp: approved_stage_def check_approved_actions_def process_approved_actions_def
      new_calls_def Let_def)

lemma calls_grow_needs_action: "\<exists>cs. calls (fst (needs_action_stage s io)) = calls s @ cs"
  using needs_action_stage_calls [of s io] by auto

lemma calls_grow_approved: "\<exists>cs. calls (fst (approved_stage s io)) = calls s @ cs"
  using approved_stage_calls [of s io] by auto

lemma stop_watcher_clears: "watcher_process (stop_watcher s) = None"
  by (simp add: stop_watcher_def wait_timeout_def Let_def split: option.splits sum.splits)

lemma run_cycle_stubborn:
  "run_cycle stubborn io_no_qwen
     = (stubborn\<lparr>calls := [PathExists [''Needs_Action''], Glob [''Needs_Action''], PathExists [''Approved'']]\<rparr>,
        Inr ())"
  by (simp add: run_cycle_def check_needs_action_def check_approved_actions_def stubborn_def
      vault_example_def path_exists_def node_at_def glob_md_def is_dir_def Let_def
      path_parent_def path_name_def endswith_def)


section \<open>The claims\<close>

text \<open>
  Claim C1. Within one lifetime of the handler, at most one action record is created per
  fingerprint: when two creation events yield the same fingerprint and the first one
  produced a record, the second one, whatever was handled in between, produces no record
  file; it changes nothing at all and returns.
\<close>

theorem dedup_one_record_per_fingerprint:
  assumes "get_file_hash md5 io1 = Inr fp"
    and "get_file_hash md5 io2 = Inr fp"
    and "created_record h (fst (on_created md5 h ev1 io1))"
  shows "on_created md5 (run_events md5 (fst (on_created md5 h ev1 io1)) es) ev2 io2
           = (run_events md5 (fst (on_created md5 h ev1 io1)) es, Inr ())"
proof -
  have "fp \<in> processed_files (fst (on_created md5 h ev1 io1))"
    using assms(1,3) by (rule on_created_created)
  then have "fp \<in> processed_files (run_events md5 (fst (on_created md5 h ev1 io1)) es)"
    using run_events_mono by blast
  with assms(2) show ?thesis by (rule on_created_seen)
qed

theorem dedup_one_record_per_fingerprint_witness:
  "created_record h_example h_report
   \<and> on_created (\<lambda>s. s) h_report ev_report (io_readable ''hello'') = (h_report, Inr ())"
proof -
  have f: "get_file_hash (\<lambda>s. s) (io_readable ''hello'') = Inr (Md5Hex ''hello'')"
    by (simp add: get_file_hash_def io_readable_def)
  have c: "created_record h_example h_report"
    by (simp add: created_record_def new_log_def h_example_def h_report_def)
  then have c': "created_record h_example (fst (on_created (\<lambda>s. s) h_example ev_report (io_readable ''hello'')))"
    by (simp add: on_created_report)
  from dedup_one_record_per_fingerprint [OF f f c', of "[]" ev_report] c
  show ?thesis by (simp add: on_created_report)
qed

text \<open>
  Claim C2, as amended. The \<open>Needs_Action\<close> folder is scanned in every cycle, whatever
  happens to the \<open>Approved\<close> stage afterwards. The \<open>Approved\<close> folder is scanned in
  that cycle exactly when scanning and handling \<open>Needs_Action\<close> has raised nothing: an
  exception of the first stage leaves \<open>run_cycle\<close> at once, with what that stage has
  done, and otherwise the cycle goes on with the second stage. An exception that leaves
  \<open>run_cycle\<close> ends the loop of \<open>run\<close>, which shuts down and returns 1.
\<close>

theorem run_cycle_stage_dependence:
  "PathExists [''Needs_Action''] \<in> set (new_calls s (fst (run_cycle s io)))
   \<and> (PathExists [''Approved''] \<in> set (new_calls s (fst (run_cycle s io)))
        \<longleftrightarrow> snd (needs_action_stage s io) = Inr ())
   \<and> (\<forall>e. snd (needs_action_stage s io) = Inl e \<longrightarrow> run_cycle s io = needs_action_stage s io)
   \<and> (snd (needs_action_stage s io) = Inr () \<longrightarrow>
        run_cycle s io = approved_stage (fst (needs_action_stage s io)) io)
   \<and> (\<forall>e. running s \<and> snd (run_cycle s io) = Inl e \<longrightarrow>
        run_loop s ((io, sig) # rest) = Some (shutdown (fst (run_cycle s io)), 1))"
proof -
  obtain s2 r where n: "needs_action_stage s io = (s2, r)"
    by (cases "needs_action_stage s io") auto
  from needs_action_stage_calls [of s io] n obtain cs where
    c: "calls s2 = calls s @ PathExists [''Needs_Action''] # cs" and a: "PathExists [''Approved''] \<notin> set cs"
    by auto
  have loop: "\<forall>e. running s \<and> snd (run_cycle s io) = Inl e \<longrightarrow>
        run_loop s ((io, sig) # rest) = Some (shutdown (fst (run_cycle s io)), 1)"
    by (auto split: prod.splits sum.splits)
  show ?thesis
  proof (cases r)
    case (Inl e)
    with n have rc: "run_cycle s io = (s2, Inl e)" by (simp add: run_cycle_stages)
    from c have "new_calls s s2 = PathExists [''Needs_Action''] # cs" by simp
    with rc n Inl a loop show ?thesis by auto
  next
    case (Inr u)
    with n have rc: "run_cycle s io = approved_stage s2 io" by (simp add: run_cycle_stages)
    from approved_stage_calls [of s2 io] obtain ds where
      "calls (fst (approved_stage s2 io)) = calls s2 @ PathExists [''Approved''] # ds" by auto
    with c have "calls (fst (approved_stage s2 io))
        = calls s @ (PathExists [''Needs_Action''] # cs @ PathExists [''Approved''] # ds)" by simp
    then have "new_calls s (fst (approved_stage s2 io))
        = PathExists [''Needs_Action''] # cs @ PathExists [''Approved''] # ds"
      by (rule new_calls_append)
    with rc n Inr loop show ?thesis by auto
  qed
qed


theorem run_cycle_stage_dependence_witness:
  "PathExists [''Needs_Action''] \<in> set (new_calls read_only (fst (run_cycle read_only io_no_qwen)))
   \<and> PathExists [''Approved''] \<notin> set (new_calls read_only (fst (run_cycle read_only io_no_qwen)))
   \<and> run_loop read_only [(io_no_qwen, False)]
       = Some (read_only\<lparr>calls := [PathExists [''Needs_Action''], Glob [''Needs_Action'']]\<rparr>, 1)"
proof -
  let ?s' = "read_only\<lparr>calls := [PathExists [''Needs_Action''], Glob [''Needs_Action'']]\<rparr>"
  have r: "running read_only" by (simp add: read_only_def)
  have s: "shutdown ?s' = ?s'"
    by (simp add: shutdown_def stop_watcher_def read_only_def)
  have n: "snd (needs_action_stage read_only io_no_qwen) = Inl PermissionError"
    by (simp add: needs_action_stage_read_only)
  note t = run_cycle_stage_dependence [of read_only io_no_qwen False "[]"]
  from t have a: "PathExists [''Needs_Action''] \<in> set (new_calls read_only (fst (run_cycle read_only io_no_qwen)))"
    by blast
  from t have "PathExists [''Approved''] \<in> set (new_calls read_only (fst (run_cycle read_only io_no_qwen)))
      \<longleftrightarrow> snd (needs_action_stage read_only io_no_qwen) = Inr ()"
    by blast
  with n have b: "PathExists [''Approved''] \<notin> set (new_calls read_only (fst (run_cycle read_only io_no_qwen)))"
    by simp
  from t n have c: "run_cycle read_only io_no_qwen = needs_action_stage read_only io_no_qwen"
    by blast
  then have d: "snd (run_cycle read_only io_no_qwen) = Inl PermissionError" using n by simp
  from t r d have "run_loop read_only [(io_no_qwen, False)]
      = Some (shutdown (fst (run_cycle read_only io_no_qwen)), 1)" by blast
  with c s have e: "run_loop read_only [(io_no_qwen, False)] = Some (?s', 1)"
    by (simp add: needs_action_stage_read_only)
  from a b e show ?thesis by blast
qed

theorem approved_scan_skipped_counterexample:
  "snd (needs_action_stage read_only io_no_qwen) = Inl PermissionError
   \<and> snd (check_approved_actions read_only) = [[''Approved'', ''ok.md'']]
   \<and> run_cycle read_only io_no_qwen
       = (read_only\<lparr>calls := [PathExists [''Needs_Action''], Glob [''Needs_Action'']]\<rparr>, Inl PermissionError)
   \<and> PathExists [''Approved''] \<notin> set (calls (fst (run_cycle read_only io_no_qwen)))"
proof -
  have e: "entries (o_vault read_only) = stage_entries @ [([''Logs''], Dir)]" by (simp add: read_only_def)
  have a: "snd (check_approved_actions read_only) = [[''Approved'', ''ok.md'']]"
    using glob_stage_entries [OF e] by (simp add: snd_check_approved_actions)
  have r: "run_cycle read_only io_no_qwen
       = (read_only\<lparr>calls := [PathExists [''Needs_Action''], Glob [''Needs_Action'']]\<rparr>, Inl PermissionError)"
    by (simp add: run_cycle_stages needs_action_stage_read_only)
  from a r show ?thesis by (simp add: needs_action_stage_read_only)
qed

text \<open>
  Claim C3 fails on the code. The fingerprint is taken right after the test for a
  directory, before the filters on the name and on the parent are reached, and outside
  any \<open>try\<close> block. So an event for a hidden or temporary file, or for a file in a
  subdirectory, whose source can neither be read nor answer \<open>stat\<close> is not discarded by
  its filter: the exception of \<open>stat\<close> leaves \<open>on_created\<close>.
\<close>

theorem hash_raises_before_filters:
  assumes "\<not> is_directory ev"
    and "hidden_name ev \<or> outside_drop h ev"
    and "open_read io = Inl e1" and "stat_for_hash io = Inl e2"
  shows "on_created md5 h ev io = (h, Inl e2)"
  using assms(1,3,4) by (simp add: on_created_def get_file_hash_def)

theorem hash_raises_before_filters_witness:
  "hidden_name ev_hidden
   \<and> on_created (\<lambda>s. s) h_example ev_hidden io_gone = (h_example, Inl FileNotFoundError)
   \<and> outside_drop h_example ev_nested
   \<and> on_created (\<lambda>s. s) h_example ev_nested io_gone = (h_example, Inl FileNotFoundError)"
proof -
  have d: "\<not> is_directory ev_hidden" "\<not> is_directory ev_nested"
    by (simp_all add: ev_hidden_def ev_nested_def)
  have a: "hidden_name ev_hidden" using hidden_passes_directory by simp
  have b: "outside_drop h_example ev_nested"
    by (simp add: outside_drop_def ev_nested_def h_example_def path_parent_def)
  have g: "open_read io_gone = Inl FileNotFoundError" "stat_for_hash io_gone = Inl FileNotFoundError"
    by (simp_all add: io_gone_def)
  from a have a': "hidden_name ev_hidden \<or> outside_drop h_example ev_hidden" by simp
  from b have b': "hidden_name ev_nested \<or> outside_drop h_example ev_nested" by simp
  from hash_raises_before_filters [OF d(1) a' g, of "\<lambda>s. s"]
    hash_raises_before_filters [OF d(2) b' g, of "\<lambda>s. s"] a b
  show ?thesis by simp
qed

text \<open>
  Claim C4 fails on the code. Two different files, \<open>report.txt\<close> and \<open>report txt\<close>,
  with different contents and fingerprints, are handled 650 milliseconds apart within the
  same second. Both get the record name \<open>FILE_DROP_report_txt_20240105_090307.md\<close>; both
  events create a record; and the record of the first file, present after the first event,
  has been replaced by the record of the second file after the second event.
\<close>

theorem record_names_collide:
  "src_path ev_report \<noteq> src_path ev_space
   \<and> get_file_hash (\<lambda>s. s) (io_readable ''hello'') \<noteq> get_file_hash (\<lambda>s. s) io_later
   \<and> action_path (src_path ev_report) (io_readable ''hello'') = action_path (src_path ev_space) io_later
   \<and> created_record h_example (fst (on_created (\<lambda>s. s) h_example ev_report (io_readable ''hello'')))
   \<and> node_at (h_vault (fst (on_created (\<lambda>s. s) h_example ev_report (io_readable ''hello''))))
        [''Needs_Action'', ''FILE_DROP_report_txt_20240105_090307.md'']
       = Some (File [ActionText \<lparr>ar_source_file = ''report.txt'',
                     ar_source_path = [''vault'', ''Inbox'', ''report.txt''],
                     ar_file_size = 5, ar_created = FromTimestamp 100,
                     ar_modified = FromTimestamp 200, ar_detected = t_example\<rparr>])
   \<and> created_record h_report (run_events (\<lambda>s. s) h_example [(ev_report, io_readable ''hello''), (ev_space, io_later)])
   \<and> node_at (h_vault (run_events (\<lambda>s. s) h_example [(ev_report, io_readable ''hello''), (ev_space, io_later)]))
        [''Needs_Action'', ''FILE_DROP_report_txt_20240105_090307.md'']
       = Some (File [ActionText \<lparr>ar_source_file = ''report txt'',
                     ar_source_path = [''vault'', ''Inbox'', ''report txt''],
                     ar_file_size = 5, ar_created = FromTimestamp 101,
                     ar_modified = FromTimestamp 201, ar_detected = t_later\<rparr>])"
proof -
  have ap: "action_path (src_path ev_space) io_later = [''Needs_Action'', ''FILE_DROP_report_txt_20240105_090307.md'']"
    by (simp add: action_path_def ev_space_def io_later_def needs_action_def action_filename_space)
  have f: "get_file_hash (\<lambda>s. s) io_later = Inr (Md5Hex ''world'')"
    by (simp add: get_file_hash_def io_later_def)
  have f1: "get_file_hash (\<lambda>s. s) (io_readable ''hello'') = Inr (Md5Hex ''hello'')"
    by (simp add: get_file_hash_def io_readable_def)
  have n: "Md5Hex ''world'' \<notin> processed_files h_report" by (simp add: h_report_def)
  have w: "snd (write_text (h_vault h_report) (action_path (src_path ev_space) io_later)
                 (ActionText (expected_record (src_path ev_space) io_later))) = Inr ()"
    by (simp add: ap write_text_report)
  from space_passes have p: "\<not> is_directory ev_space" "\<not> hidden_name ev_space"
    "\<not> outside_drop h_report ev_space" by simp_all
  have e: "expected_record (src_path ev_space) io_later =
      \<lparr>ar_source_file = ''report txt'', ar_source_path = [''vault'', ''Inbox'', ''report txt''],
       ar_file_size = 5, ar_created = FromTimestamp 101,
       ar_modified = FromTimestamp 201, ar_detected = t_later\<rparr>"
    by (simp add: expected_record_def try_metadata_def io_later_def ev_space_def path_name_def)
  have r: "run_events (\<lambda>s. s) h_example [(ev_report, io_readable ''hello''), (ev_space, io_later)]
       = fst (on_created (\<lambda>s. s) h_report ev_space io_later)"
    by (simp add: on_created_report)
  have c1: "created_record h_example h_report"
    by (simp add: created_record_def new_log_def h_example_def h_report_def)
  have n1: "node_at (h_vault h_report) [''Needs_Action'', ''FILE_DROP_report_txt_20240105_090307.md'']
       = Some (File [ActionText \<lparr>ar_source_file = ''report.txt'',
                     ar_source_path = [''vault'', ''Inbox'', ''report.txt''],
                     ar_file_size = 5, ar_created = FromTimestamp 100,
                     ar_modified = FromTimestamp 200, ar_detected = t_example\<rparr>])"
    by (simp add: h_report_def node_at_def)
  have d: "src_path ev_report \<noteq> src_path ev_space" by (simp add: ev_report_def ev_space_def)
  from on_created_write_succeeds [OF p(1) f n p(2) p(3) w] r e ap c1 n1 d f f1
  show ?thesis by (simp add: on_created_report action_path_report)
qed

text \<open>
  Claim C5. \<open>stop_watcher\<close> sends the termination request, waits for the exit at most
  5 seconds and kills the child when it has not exited by then, whatever the child does;
  the time it blocks is at most 5000 milliseconds; no process is supervised afterwards;
  with no process it does nothing, so that a second call in a row does nothing.
\<close>

theorem stop_watcher_graceful_then_forced:
  "(\<forall>p. watcher_process s = Some p \<longrightarrow>
        calls (stop_watcher s) = calls s @ Terminate (pid p) #
          (case exit_after_term p of
             Some d \<Rightarrow> if d \<le> 5000 then [Waited (pid p) d] else [Waited (pid p) 5000, Kill (pid p)]
           | None \<Rightarrow> [Waited (pid p) 5000, Kill (pid p)]))
   \<and> sum_list (map blocking_ms (new_calls s (stop_watcher s))) \<le> 5000
   \<and> watcher_process (stop_watcher s) = None
   \<and> (watcher_process s = None \<longrightarrow> stop_watcher s = s)
   \<and> stop_watcher (stop_watcher s) = stop_watcher s"
  by (auto simp: stop_watcher_def wait_timeout_def new_calls_def Let_def split: option.splits)

theorem stop_watcher_graceful_then_forced_witness:
  "calls (stop_watcher stubborn) = [Terminate 7, Waited 7 5000, Kill 7]
   \<and> watcher_process (stop_watcher stubborn) = None
   \<and> stop_watcher (stop_watcher stubborn) = stop_watcher stubborn"
  using stop_watcher_graceful_then_forced [of stubborn]
  by (simp add: stubborn_def)

text \<open>
  Claim C6, as amended. When \<open>qwen\<close> cannot be found (or spawning it fails in any
  other way), \<open>_invoke_qwen_code\<close> falls back to \<open>_log_pending_tasks\<close> and spawns
  nothing. The fallback raises nothing exactly when the \<open>Logs\<close> folder is a directory or
  can be made, the log file of the day is not a directory and may be opened for writing,
  and writing the entry to it goes through; it has then appended to that file one entry
  of type \<open>pending_tasks_detected\<close> with the number and the names of the pending items
  and the hint for processing them by hand. Otherwise the exception of \<open>mkdir\<close>, of
  \<open>open\<close> or of \<open>write\<close> leaves \<open>_invoke_qwen_code\<close>.
\<close>

theorem fallback_logs_pending_tasks:
  assumes "popen_qwen io = Inl e"
  shows "(snd (invoke_qwen_code s io task_files) = Inr ()
          \<longleftrightarrow> can_log (o_vault s) (pending_log_file io)
                (LogText \<lparr>le_timestamp = now_pending_stamp io,
                          le_action_type = ''pending_tasks_detected'',
                          le_count = length task_files,
                          le_items = map path_name task_files,
                          le_next_steps = pending_next_steps\<rparr>))
   \<and> (snd (invoke_qwen_code s io task_files) = Inr () \<longrightarrow>
        node_at (o_vault (fst (invoke_qwen_code s io task_files))) (pending_log_file io)
          = Some (File ((case node_at (o_vault s) (pending_log_file io) of
                           Some (File cs) \<Rightarrow> cs | _ \<Rightarrow> [])
                        @ [LogText \<lparr>le_timestamp = now_pending_stamp io,
                                   le_action_type = ''pending_tasks_detected'',
                                   le_count = length task_files,
                                   le_items = map path_name task_files,
                                   le_next_steps = pending_next_steps\<rparr>])))
   \<and> calls (fst (invoke_qwen_code s io task_files)) = calls s"
  using assms log_pending_tasks_result [of s io task_files]
  by (simp add: invoke_qwen_code_def)

theorem fallback_logs_pending_tasks_witness:
  "snd (invoke_qwen_code writable io_no_qwen [[''Needs_Action'', ''task.md'']]) = Inr ()
   \<and> node_at (o_vault (fst (invoke_qwen_code writable io_no_qwen [[''Needs_Action'', ''task.md'']])))
        [''Logs'', ''2024-01-05.md'']
       = Some (File [LogText \<lparr>le_timestamp = t_example,
                                le_action_type = ''pending_tasks_detected'',
                                le_count = 1, le_items = [''task.md''],
                                le_next_steps = [''Run qwen in the vault directory'',
                                   ''Process the pending tasks'',
                                   ''Move completed tasks to Done folder'']\<rparr>])
   \<and> snd (invoke_qwen_code unencodable io_no_qwen [[''Needs_Action'', latin_md]]) \<noteq> Inr ()"
proof -
  have p: "popen_qwen io_no_qwen = Inl FileNotFoundError" by (simp add: io_no_qwen_def)
  have t: "now_pending_stamp io_no_qwen = t_example" by (simp add: io_no_qwen_def)
  have c: "can_log (o_vault writable) [''Logs'', ''2024-01-05.md''] entry" for entry
    by (simp add: can_log_def writable_def stage_entries_def is_dir_def node_at_def path_parent_def)
  have n: "node_at (o_vault writable) [''Logs'', ''2024-01-05.md''] = None"
    by (simp add: writable_def stage_entries_def node_at_def)
  have u: "\<not> can_log (o_vault unencodable) [''Logs'', ''2024-01-05.md'']
             (LogText \<lparr>le_timestamp = t_example, le_action_type = ''pending_tasks_detected'',
                       le_count = 1, le_items = [latin_md],
                       le_next_steps = pending_next_steps\<rparr>)"
    by (simp add: can_log_def unencodable_def)
  from fallback_logs_pending_tasks [OF p, of writable "[[''Needs_Action'', ''task.md'']]"] c n t
  have a: "snd (invoke_qwen_code writable io_no_qwen [[''Needs_Action'', ''task.md'']]) = Inr ()
   \<and> node_at (o_vault (fst (invoke_qwen_code writable io_no_qwen [[''Needs_Action'', ''task.md'']])))
        [''Logs'', ''2024-01-05.md'']
       = Some (File [LogText \<lparr>le_timestamp = t_example,
                                le_action_type = ''pending_tasks_detected'',
                                le_count = 1, le_items = [''task.md''],
                                le_next_steps = [''Run qwen in the vault directory'',
                                   ''Process the pending tasks'',
                                   ''Move completed tasks to Done folder'']\<rparr>])"
    by (simp add: pending_log_file_example pending_next_steps_def path_name_def)
  from fallback_logs_pending_tasks [OF p, of unencodable "[[''Needs_Action'', latin_md]]"] u t
  have b: "snd (invoke_qwen_code unencodable io_no_qwen [[''Needs_Action'', latin_md]]) \<noteq> Inr ()"
    by (simp add: pending_log_file_example path_name_def)
  from a b show ?thesis by blast
qed

theorem fallback_raises_counterexample:
  "popen_qwen io_no_qwen = Inl FileNotFoundError
   \<and> invoke_qwen_code logs_is_file io_no_qwen [[''Needs_Action'', ''task.md'']]
       = (logs_is_file, Inl FileExistsError)"
  by (simp add: invoke_qwen_code_def io_no_qwen_def log_pending_tasks_def path_parent_def
      mkdir_parents_top logs_is_file_def stage_entries_def node_at_def)

text \<open>
  Claim C7 fails on the code. \<open>_get_file_hash\<close> is called outside the \<open>try\<close> block of
  \<open>on_created\<close>, and the \<open>stat\<close> of its fall-back is not guarded as the \<open>stat\<close> of
  \<open>_create_action_file\<close> is. For an event that passes the filters, a source that can
  neither be read nor answer \<open>stat\<close> makes the exception of \<open>stat\<close> leave the handler;
  nothing is logged, no record is written and the vault stays as it was.
\<close>

theorem unguarded_stat_leaves_handler:
  assumes "\<not> is_directory ev" and "\<not> hidden_name ev" and "\<not> outside_drop h ev"
    and "open_read io = Inl e1" and "stat_for_hash io = Inl e2"
  shows "on_created md5 h ev io = (h, Inl e2)
     \<and> \<not> created_record h (fst (on_created md5 h ev io))"
  using assms(1,4,5) by (simp add: on_created_def get_file_hash_def created_record_def)

theorem unguarded_stat_leaves_handler_witness:
  "\<not> is_directory ev_report \<and> \<not> hidden_name ev_report \<and> \<not> outside_drop h_example ev_report
   \<and> open_read io_gone = Inl FileNotFoundError \<and> stat_for_hash io_gone = Inl FileNotFoundError
   \<and> on_created (\<lambda>s. s) h_example ev_report io_gone = (h_example, Inl FileNotFoundError)"
proof -
  from report_passes have p: "\<not> is_directory ev_report" "\<not> hidden_name ev_report"
    "\<not> outside_drop h_example ev_report" by simp_all
  have g: "open_read io_gone = Inl FileNotFoundError" "stat_for_hash io_gone = Inl FileNotFoundError"
    by (simp_all add: io_gone_def)
  from unguarded_stat_leaves_handler [OF p g, of "\<lambda>s. s"] p g
  show ?thesis by simp
qed

text \<open>
  Claim C8. Setting up the folders is idempotent: on a vault where the nine folders exist
  it raises nothing and leaves the vault as it is (even when the vault refuses every
  write), and after a run that has succeeded a second run succeeds and changes nothing.
\<close>

theorem ensure_folders_idempotent:
  "((\<forall>f \<in> set folders. is_dir (o_vault s) [f]) \<longrightarrow> ensure_folders s = (s, Inr ()))
   \<and> (ensure_folders s = (s', Inr ()) \<longrightarrow> ensure_folders s' = (s', Inr ()))"
proof (intro conjI impI)
  assume "\<forall>f \<in> set folders. is_dir (o_vault s) [f]"
  then show "ensure_folders s = (s, Inr ())"
    by (simp add: ensure_folders_def mkdir_all_existing)
next
  assume a: "ensure_folders s = (s', Inr ())"
  then obtain v where m: "mkdir_all (o_vault s) folders = (v, Inr ())" and s': "s' = s\<lparr>o_vault := v\<rparr>"
    by (auto simp: ensure_folders_def split: prod.splits)
  from m have "\<forall>f \<in> set folders. is_dir v [f]" by (rule mkdir_all_makes)
  then have "mkdir_all v folders = (v, Inr ())" by (rule mkdir_all_existing)
  with s' show "ensure_folders s' = (s', Inr ())"
    by (simp add: ensure_folders_def)
qed

theorem ensure_folders_idempotent_witness:
  "ensure_folders populated = (populated, Inr ())
   \<and> ensure_folders (fst (ensure_folders populated)) = (populated, Inr ())"
proof -
  have d: "\<forall>f \<in> set folders. is_dir (o_vault populated) [f]"
    by (simp add: populated_def folders_def is_dir_def node_at_def)
  from ensure_folders_idempotent [of populated populated] d
  show ?thesis by simp
qed

text \<open>
  Claim C9. The fingerprint enters the set of processed files only after the action
  record has been written. A call that changes the set has got its \<open>write_text\<close> back
  and the record is in the vault. For an event that passes the filters with a fingerprint
  not yet in the set: when \<open>write_text\<close> returns, the record is in the vault and the
  fingerprint is added; when \<open>write_text\<close> raises, the handler returns with an error
  logged, with the vault as the failed write has left it and with the set as it was. A
  later event with the same fingerprint that passes the filters is then not taken for a
  duplicate: the record is written again, in the vault as it is then, and with it the
  fingerprint is added, or the write fails again and the set stays as it was.
\<close>

theorem seen_set_grows_only_after_write:
  assumes "on_created md5 h ev io = (h', r)"
  shows "(processed_files h' \<noteq> processed_files h \<longrightarrow>
            snd (write_text (h_vault h) (action_path (src_path ev) io)
                   (ActionText (expected_record (src_path ev) io))) = Inr ()
            \<and> node_at (h_vault h') (action_path (src_path ev) io)
                = Some (File [ActionText (expected_record (src_path ev) io)]))
     \<and> (\<not> is_directory ev \<and> \<not> hidden_name ev \<and> \<not> outside_drop h ev \<and>
         get_file_hash md5 io = Inr fp \<and> fp \<notin> processed_files h \<and>
         snd (write_text (h_vault h) (action_path (src_path ev) io)
                (ActionText (expected_record (src_path ev) io))) = Inr () \<longrightarrow>
            r = Inr () \<and> processed_files h' = insert fp (processed_files h)
            \<and> node_at (h_vault h') (action_path (src_path ev) io)
                = Some (File [ActionText (expected_record (src_path ev) io)]))
     \<and> (\<not> is_directory ev \<and> \<not> hidden_name ev \<and> \<not> outside_drop h ev \<and>
         get_file_hash md5 io = Inr fp \<and> fp \<notin> processed_files h \<and>
         snd (write_text (h_vault h) (action_path (src_path ev) io)
                (ActionText (expected_record (src_path ev) io))) = Inl e \<longrightarrow>
            r = Inr () \<and> creation_failed h h' \<and> processed_files h' = processed_files h
            \<and> h_vault h' = fst (write_text (h_vault h) (action_path (src_path ev) io)
                                   (ActionText (expected_record (src_path ev) io)))
            \<and> (\<not> is_directory ev2 \<and> \<not> hidden_name ev2 \<and> \<not> outside_drop h ev2 \<and>
                get_file_hash md5 io2 = Inr fp \<longrightarrow>
                  (snd (write_text v2 (action_path (src_path ev2) io2)
                          (ActionText (expected_record (src_path ev2) io2))) = Inr () \<longrightarrow>
                     processed_files (fst (on_created md5 (h'\<lparr>h_vault := v2\<rparr>) ev2 io2))
                       = insert fp (processed_files h)
                     \<and> node_at (h_vault (fst (on_created md5 (h'\<lparr>h_vault := v2\<rparr>) ev2 io2)))
                          (action_path (src_path ev2) io2)
                         = Some (File [ActionText (expected_record (src_path ev2) io2)]))
                  \<and> (snd (write_text v2 (action_path (src_path ev2) io2)
                          (ActionText (expected_record (src_path ev2) io2))) \<noteq> Inr () \<longrightarrow>
                     creation_failed (h'\<lparr>h_vault := v2\<rparr>)
                       (fst (on_created md5 (h'\<lparr>h_vault := v2\<rparr>) ev2 io2))
                     \<and> processed_files (fst (on_created md5 (h'\<lparr>h_vault := v2\<rparr>) ev2 io2))
                         = processed_files h
                     \<and> h_vault (fst (on_created md5 (h'\<lparr>h_vault := v2\<rparr>) ev2 io2))
                         = fst (write_text v2 (action_path (src_path ev2) io2)
                                 (ActionText (expected_record (src_path ev2) io2))))))"
proof -
  let ?w = "write_text (h_vault h) (action_path (src_path ev) io)
              (ActionText (expected_record (src_path ev) io))"
  have h': "h' = fst (on_created md5 h ev io)" and r: "r = snd (on_created md5 h ev io)"
    using assms by simp_all
  have first: "processed_files h' \<noteq> processed_files h \<longrightarrow>
            snd ?w = Inr ()
            \<and> node_at (h_vault h') (action_path (src_path ev) io)
                = Some (File [ActionText (expected_record (src_path ev) io)])"
  proof
    assume ch: "processed_files h' \<noteq> processed_files h"
    have ns: "\<not> (is_directory ev \<or> (\<exists>e. get_file_hash md5 io = Inl e)
       \<or> (\<exists>fp. get_file_hash md5 io = Inr fp \<and> (fp \<in> processed_files h \<or> hidden_name ev \<or> outside_drop h ev)))"
      using on_created_skips [of ev md5 io h] ch h' by auto
    then obtain fp' where p: "\<not> is_directory ev" "get_file_hash md5 io = Inr fp'"
      "fp' \<notin> processed_files h" "\<not> hidden_name ev" "\<not> outside_drop h ev"
      by (cases "get_file_hash md5 io") auto
    show "snd ?w = Inr ()
            \<and> node_at (h_vault h') (action_path (src_path ev) io)
                = Some (File [ActionText (expected_record (src_path ev) io)])"
    proof (cases "snd ?w")
      case (Inl e')
      from on_created_write_fails [OF p Inl] ch h' show ?thesis by simp
    next
      case (Inr u)
      then have w: "snd ?w = Inr ()" by simp
      from on_created_write_succeeds [OF p w] w h' show ?thesis by simp
    qed
  qed
  have second: "r = Inr () \<and> processed_files h' = insert fp (processed_files h)
            \<and> node_at (h_vault h') (action_path (src_path ev) io)
                = Some (File [ActionText (expected_record (src_path ev) io)])"
    if "\<not> is_directory ev" "get_file_hash md5 io = Inr fp" "fp \<notin> processed_files h"
      "\<not> hidden_name ev" "\<not> outside_drop h ev" "snd ?w = Inr ()"
    using on_created_write_succeeds [OF that] h' r by simp
  have third: "r = Inr () \<and> creation_failed h h' \<and> processed_files h' = processed_files h
            \<and> h_vault h' = fst ?w
            \<and> (\<not> is_directory ev2 \<and> \<not> hidden_name ev2 \<and> \<not> outside_drop h ev2 \<and>
                get_file_hash md5 io2 = Inr fp \<longrightarrow>
                  (snd (write_text v2 (action_path (src_path ev2) io2)
                          (ActionText (expected_record (src_path ev2) io2))) = Inr () \<longrightarrow>
                     processed_files (fst (on_created md5 (h'\<lparr>h_vault := v2\<rparr>) ev2 io2))
                       = insert fp (processed_files h)
                     \<and> node_at (h_vault (fst (on_created md5 (h'\<lparr>h_vault := v2\<rparr>) ev2 io2)))
                          (action_path (src_path ev2) io2)
                         = Some (File [ActionText (expected_record (src_path ev2) io2)]))
                  \<and> (snd (write_text v2 (action_path (src_path ev2) io2)
                          (ActionText (expected_record (src_path ev2) io2))) \<noteq> Inr () \<longrightarrow>
                     creation_failed (h'\<lparr>h_vault := v2\<rparr>)
                       (fst (on_created md5 (h'\<lparr>h_vault := v2\<rparr>) ev2 io2))
                     \<and> processed_files (fst (on_created md5 (h'\<lparr>h_vault := v2\<rparr>) ev2 io2))
                         = processed_files h
                     \<and> h_vault (fst (on_created md5 (h'\<lparr>h_vault := v2\<rparr>) ev2 io2))
                         = fst (write_text v2 (action_path (src_path ev2) io2)
                                 (ActionText (expected_record (src_path ev2) io2)))))"
    if p: "\<not> is_directory ev" "get_file_hash md5 io = Inr fp" "fp \<notin> processed_files h"
      "\<not> hidden_name ev" "\<not> outside_drop h ev" "snd ?w = Inl e"
  proof -
    from on_created_write_fails [OF p] h' r
    have f: "r = Inr ()" "processed_files h' = processed_files h" "drop_path h' = drop_path h"
      "h_vault h' = fst ?w" "creation_failed h h'"
      by simp_all
    let ?g = "h'\<lparr>h_vault := v2\<rparr>"
    let ?w2 = "write_text v2 (action_path (src_path ev2) io2)
                 (ActionText (expected_record (src_path ev2) io2))"
    have retry: "(snd ?w2 = Inr () \<longrightarrow>
                     processed_files (fst (on_created md5 ?g ev2 io2)) = insert fp (processed_files h)
                     \<and> node_at (h_vault (fst (on_created md5 ?g ev2 io2))) (action_path (src_path ev2) io2)
                         = Some (File [ActionText (expected_record (src_path ev2) io2)]))
                  \<and> (snd ?w2 \<noteq> Inr () \<longrightarrow>
                     creation_failed ?g (fst (on_created md5 ?g ev2 io2))
                     \<and> processed_files (fst (on_created md5 ?g ev2 io2)) = processed_files h
                     \<and> h_vault (fst (on_created md5 ?g ev2 io2)) = fst ?w2)"
      if q: "\<not> is_directory ev2" "\<not> hidden_name ev2" "\<not> outside_drop h ev2"
        "get_file_hash md5 io2 = Inr fp"
    proof -
      have b: "fp \<notin> processed_files ?g" using f(2) p(3) by simp
      have c: "\<not> outside_drop ?g ev2" using q(3) f(3) by (simp add: outside_drop_def)
      show ?thesis
      proof (cases "snd ?w2")
        case (Inl e')
        then have w: "snd (write_text (h_vault ?g) (action_path (src_path ev2) io2)
                 (ActionText (expected_record (src_path ev2) io2))) = Inl e'" by simp
        from on_created_write_fails [OF q(1) q(4) b q(2) c w] Inl f(2) show ?thesis by simp
      next
        case (Inr u)
        then have w: "snd (write_text (h_vault ?g) (action_path (src_path ev2) io2)
                 (ActionText (expected_record (src_path ev2) io2))) = Inr ()" by simp
        from on_created_write_succeeds [OF q(1) q(4) b q(2) c w] Inr f(2) show ?thesis by simp
      qed
    qed
    from f retry show ?thesis by blast
  qed
  from first second third show ?thesis by blast
qed

theorem seen_set_grows_only_after_write_witness:
  "creation_failed h_denied (fst (on_created (\<lambda>s. s) h_denied ev_report (io_readable ''hello'')))
   \<and> processed_files (fst (on_created (\<lambda>s. s) h_denied ev_report (io_readable ''hello''))) = {}
   \<and> processed_files
        (fst (on_created (\<lambda>s. s)
               (fst (on_created (\<lambda>s. s) h_denied ev_report (io_readable ''hello''))\<lparr>h_vault := vault_example\<rparr>)
               ev_report (io_readable ''hello''))) = {Md5Hex ''hello''}
   \<and> processed_files (fst (on_created (\<lambda>s. s) h_strict ev_report (io_readable ''hello''))) = {}
   \<and> node_at (h_vault (fst (on_created (\<lambda>s. s) h_strict ev_report (io_readable ''hello''))))
        [''Needs_Action'', ''FILE_DROP_report_txt_20240105_090307.md''] = Some (File [])"
proof -
  let ?io = "io_readable ''hello''"
  let ?h' = "fst (on_created (\<lambda>s. s) h_denied ev_report ?io)"
  let ?k' = "fst (on_created (\<lambda>s. s) h_strict ev_report ?io)"
  have f: "get_file_hash (\<lambda>s. s) ?io = Inr (Md5Hex ''hello'')"
    by (simp add: get_file_hash_def io_readable_def)
  have n: "Md5Hex ''hello'' \<notin> processed_files h_denied" "processed_files h_denied = {}"
    "Md5Hex ''hello'' \<notin> processed_files h_strict" "processed_files h_strict = {}"
    by (simp_all add: h_denied_def h_strict_def)
  have w: "snd (write_text (h_vault h_denied) (action_path (src_path ev_report) ?io)
                  (ActionText (expected_record (src_path ev_report) ?io))) = Inl PermissionError"
    by (simp add: action_path_report write_text_denied)
  have ws: "write_text (h_vault h_strict) (action_path (src_path ev_report) ?io)
                  (ActionText (expected_record (src_path ev_report) ?io))
      = (put (h_vault h_strict) [''Needs_Action'', ''FILE_DROP_report_txt_20240105_090307.md'']
           (File []), Inl UnicodeEncodeError)"
    by (simp add: action_path_report write_text_strict)
  from report_passes have p: "\<not> is_directory ev_report" "\<not> hidden_name ev_report"
    "\<not> outside_drop h_denied ev_report" "\<not> outside_drop h_strict ev_report" by simp_all
  have o: "snd (write_text vault_example (action_path (src_path ev_report) ?io)
                  (ActionText (expected_record (src_path ev_report) ?io))) = Inr ()"
    by (simp add: action_path_report write_text_example)
  have e: "on_created (\<lambda>s. s) h_denied ev_report ?io = (?h', snd (on_created (\<lambda>s. s) h_denied ev_report ?io))"
    by simp
  have e2: "on_created (\<lambda>s. s) h_strict ev_report ?io = (?k', snd (on_created (\<lambda>s. s) h_strict ev_report ?io))"
    by simp
  from seen_set_grows_only_after_write [OF e, of "Md5Hex ''hello''" PermissionError ev_report ?io vault_example]
    f n w p o
  have a: "creation_failed h_denied ?h' \<and> processed_files ?h' = {}
     \<and> processed_files (fst (on_created (\<lambda>s. s) (?h'\<lparr>h_vault := vault_example\<rparr>) ev_report ?io))
         = {Md5Hex ''hello''}"
    by simp
  from seen_set_grows_only_after_write [OF e2, of "Md5Hex ''hello''" UnicodeEncodeError ev_report ?io vault_example]
    f n ws p
  have b: "processed_files ?k' = {}
     \<and> h_vault ?k' = put (h_vault h_strict) [''Needs_Action'', ''FILE_DROP_report_txt_20240105_090307.md''] (File [])"
    by simp
  then have "node_at (h_vault ?k') [''Needs_Action'', ''FILE_DROP_report_txt_20240105_090307.md'']
      = Some (File [])"
    by (simp add: node_at_put)
  with a b show ?thesis by simp
qed

text \<open>
  Claim C10. Every path the two stage scans return lies directly in the scanned folder
  and has a name ending in \<open>.md\<close>; the copy of a source file that the drop detector
  puts beside a record, named \<open><source-name>_<timestamp>\<close>, is never among them.
\<close>

theorem stage_scans_only_md:
  "(\<forall>p \<in> set (snd (check_needs_action s)).
       path_parent p = [''Needs_Action''] \<and> endswith (path_name p) ''.md'')
   \<and> (\<forall>p \<in> set (snd (check_approved_actions s)).
       path_parent p = [''Approved''] \<and> endswith (path_name p) ''.md'')
   \<and> [''Needs_Action'', copy_name source t] \<notin> set (snd (check_needs_action s))
   \<and> [''Approved'', copy_name source t] \<notin> set (snd (check_approved_actions s))"
proof (intro conjI ballI)
  fix p assume "p \<in> set (snd (check_needs_action s))"
  then show "path_parent p = [''Needs_Action'']" "endswith (path_name p) ''.md''"
    using glob_md_member by (auto simp: snd_check_needs_action split: if_splits)
next
  fix p assume "p \<in> set (snd (check_approved_actions s))"
  then show "path_parent p = [''Approved'']" "endswith (path_name p) ''.md''"
    using glob_md_member by (auto simp: snd_check_approved_actions split: if_splits)
next
  show "[''Needs_Action'', copy_name source t] \<notin> set (snd (check_needs_action s))"
  proof
    assume "[''Needs_Action'', copy_name source t] \<in> set (snd (check_needs_action s))"
    then have "endswith (path_name [''Needs_Action'', copy_name source t]) ''.md''"
      using glob_md_member by (auto simp: snd_check_needs_action split: if_splits)
    then show False using copy_name_not_md by (simp add: path_name_def)
  qed
next
  show "[''Approved'', copy_name source t] \<notin> set (snd (check_approved_actions s))"
  proof
    assume "[''Approved'', copy_name source t] \<in> set (snd (check_approved_actions s))"
    then have "endswith (path_name [''Approved'', copy_name source t]) ''.md''"
      using glob_md_member by (auto simp: snd_check_approved_actions split: if_splits)
    then show False using copy_name_not_md by (simp add: path_name_def)
  qed
qed

theorem stage_scans_only_md_witness:
  "snd (check_needs_action after_drop) = [[''Needs_Action'', ''FILE_DROP_report_txt_20240105_090307.md'']]
   \<and> [''Needs_Action'', ''report.txt_20240105_090307''] \<notin> set (snd (check_needs_action after_drop))
   \<and> map_of (entries (o_vault after_drop)) [''Needs_Action'', ''report.txt_20240105_090307'']
       = Some (File [RawBytes ''hello''])"
  using stage_scans_only_md [of after_drop "[''vault'', ''Inbox'', ''report.txt'']" t_example]
    needs_action_after_drop
  by (simp add: copy_name_report after_drop_def h_report_def)

section \<open>Further properties\<close>

text \<open>
  Record names are as distinct as the seconds: two records get the same name exactly when
  the escaped names of their sources coincide and the two readings of the clock agree up
  to the second.
\<close>

theorem record_names_distinct_across_seconds:
  assumes "clock_in_range t1" and "clock_in_range t2"
  shows "action_filename s1 t1 = action_filename s2 t2
           \<longleftrightarrow> safe_name s1 = safe_name s2 \<and> same_second t1 t2"
proof
  assume e: "action_filename s1 t1 = action_filename s2 t2"
  have l: "length (''_'' @ strftime_stamp t1 @ ''.md'') = length (''_'' @ strftime_stamp t2 @ ''.md'')"
    using assms by (simp add: length_stamp)
  from e have "safe_name s1 @ (''_'' @ strftime_stamp t1 @ ''.md'')
             = safe_name s2 @ (''_'' @ strftime_stamp t2 @ ''.md'')"
    by (simp add: action_filename_def)
  with l have "safe_name s1 = safe_name s2 \<and> ''_'' @ strftime_stamp t1 @ ''.md'' = ''_'' @ strftime_stamp t2 @ ''.md''"
    using append_eq_append_conv by blast
  then have "safe_name s1 = safe_name s2" and "strftime_stamp t1 = strftime_stamp t2" by simp_all
  with assms show "safe_name s1 = safe_name s2 \<and> same_second t1 t2"
    using stamp_inj by blast
next
  assume "safe_name s1 = safe_name s2 \<and> same_second t1 t2"
  then show "action_filename s1 t1 = action_filename s2 t2"
    using stamp_same_second by (simp add: action_filename_def)
qed

theorem record_names_distinct_across_seconds_witness:
  "clock_in_range t_example \<and> clock_in_range t_next \<and> \<not> same_second t_example t_next
   \<and> action_filename [''vault'', ''Inbox'', ''report.txt''] t_example
      \<noteq> action_filename [''vault'', ''Inbox'', ''report.txt''] t_next"
proof -
  have a: "clock_in_range t_example" "clock_in_range t_next"
    by (simp_all add: clock_in_range_def t_example_def t_next_def)
  have b: "\<not> same_second t_example t_next"
    by (simp add: same_second_def t_example_def t_next_def)
  from record_names_distinct_across_seconds [OF a, of "[''vault'', ''Inbox'', ''report.txt'']" "[''vault'', ''Inbox'', ''report.txt'']"] a b
  show ?thesis by simp
qed

text \<open>
  A stage scan only reads: it leaves the vault as it is, and it returns the empty list,
  not an error, when the folder of the stage does not exist.
\<close>

theorem stage_scan_pure_read:
  "o_vault (fst (check_needs_action s)) = o_vault s
   \<and> o_vault (fst (check_approved_actions s)) = o_vault s
   \<and> (\<not> path_exists (o_vault s) [''Needs_Action''] \<longrightarrow> snd (check_needs_action s) = [])
   \<and> (\<not> path_exists (o_vault s) [''Approved''] \<longrightarrow> snd (check_approved_actions s) = [])"
  by (simp add: check_needs_action_def check_approved_actions_def Let_def)

theorem stage_scan_pure_read_witness:
  "\<not> path_exists (o_vault stubborn) [''Approved'']
   \<and> check_approved_actions stubborn = (stubborn\<lparr>calls := [PathExists [''Approved'']]\<rparr>, [])"
proof -
  have a: "\<not> path_exists (o_vault stubborn) [''Approved'']"
    by (simp add: stubborn_def vault_example_def path_exists_def node_at_def)
  from stage_scan_pure_read [of stubborn] a
  have "snd (check_approved_actions stubborn) = []" by blast
  moreover have "fst (check_approved_actions stubborn) = stubborn\<lparr>calls := [PathExists [''Approved'']]\<rparr>"
    using a by (simp add: check_approved_actions_def Let_def stubborn_def)
  ultimately show ?thesis using a by (simp add: prod_eq_iff)
qed


text \<open>
  The agent is fired and forgotten: no call of a cycle waits for a process, and when
  \<open>qwen\<close> starts the \<open>Needs_Action\<close> stage consists of the scan and the spawn alone.
\<close>

theorem agent_is_fired_and_forgotten:
  "sum_list (map blocking_ms (new_calls s (fst (run_cycle s io)))) = 0
   \<and> (\<forall>p. popen_qwen io = Inr p \<and> snd (check_needs_action s) \<noteq> [] \<longrightarrow>
         needs_action_stage s io
           = (s\<lparr>calls := calls s @ [PathExists [''Needs_Action''], Glob [''Needs_Action''], Spawned p]\<rparr>,
              Inr ()))"
proof -
  obtain s2 r where n: "needs_action_stage s io = (s2, r)"
    by (cases "needs_action_stage s io") auto
  from calls_grow_needs_action [of s io] n obtain cs where c: "calls s2 = calls s @ cs" by auto
  from needs_action_stage_never_waits [of s io] n c have z: "sum_list (map blocking_ms cs) = 0"
    by simp
  have w: "sum_list (map blocking_ms (new_calls s (fst (run_cycle s io)))) = 0"
  proof (cases r)
    case (Inl e)
    with n c z show ?thesis by (simp add: run_cycle_stages)
  next
    case (Inr u)
    from calls_grow_approved [of s2 io] obtain ds where
      d: "calls (fst (approved_stage s2 io)) = calls s2 @ ds" by auto
    from approved_stage_never_waits [of s2 io] d have "sum_list (map blocking_ms ds) = 0" by simp
    moreover from c d have "new_calls s (fst (approved_stage s2 io)) = cs @ ds" by simp
    ultimately show ?thesis using n Inr z by (simp add: run_cycle_stages)
  qed
  have f: "\<forall>p. popen_qwen io = Inr p \<and> snd (check_needs_action s) \<noteq> [] \<longrightarrow>
         needs_action_stage s io
           = (s\<lparr>calls := calls s @ [PathExists [''Needs_Action''], Glob [''Needs_Action''], Spawned p]\<rparr>,
              Inr ())"
    by (auto simp: needs_action_stage_def check_needs_action_def trigger_qwen_code_def
        invoke_qwen_code_def Let_def)
  from w f show ?thesis by blast
qed

theorem agent_is_fired_and_forgotten_witness:
  "needs_action_stage writable io_qwen
     = (writable\<lparr>calls := [PathExists [''Needs_Action''], Glob [''Needs_Action''], Spawned 42]\<rparr>, Inr ())
   \<and> sum_list (map blocking_ms (new_calls writable (fst (run_cycle writable io_qwen)))) = 0"
proof -
  have e: "entries (o_vault writable) = stage_entries @ [([''Logs''], Dir)]" by (simp add: writable_def)
  have p: "popen_qwen io_qwen = Inr 42" by (simp add: io_qwen_def)
  have n: "snd (check_needs_action writable) \<noteq> []"
    using glob_stage_entries [OF e] by (simp add: snd_check_needs_action)
  have c: "calls writable = []" by (simp add: writable_def)
  from agent_is_fired_and_forgotten [of writable io_qwen] p n c show ?thesis by simp
qed


text \<open>
  However the loop of \<open>run\<close> ends, by a signal or by an exception of a cycle, the
  watcher has been stopped and the exit code is 0 or 1.
\<close>

theorem run_loop_always_stops_watcher:
  "run_loop s its = Some (s', code) \<Longrightarrow> watcher_process s' = None \<and> (code = 0 \<or> code = 1)"
proof (induction its arbitrary: s)
  case Nil
  then show ?case
    by (auto simp: shutdown_def stop_watcher_clears split: if_splits)
next
  case (Cons it its)
  show ?case
  proof (cases "running s")
    case False
    with Cons.prems show ?thesis
      by (auto simp: shutdown_def stop_watcher_clears)
  next
    case True
    obtain s1 r where c: "run_cycle s (fst it) = (s1, r)" by (cases "run_cycle s (fst it)") auto
    show ?thesis
    proof (cases r)
      case (Inl e)
      with True c Cons.prems show ?thesis
        by (auto simp: shutdown_def stop_watcher_clears)
    next
      case (Inr u)
      with True c Cons.prems
      have "run_loop (if snd it then s1\<lparr>running := False\<rparr> else s1) its = Some (s', code)" by simp
      then show ?thesis by (rule Cons.IH)
    qed
  qed
qed


theorem run_loop_always_stops_watcher_witness:
  "run_loop stubborn [(io_no_qwen, True)]
     = Some (\<lparr>o_vault = vault_example, watcher_process = None, running = False,
              calls = [PathExists [''Needs_Action''], Glob [''Needs_Action''], PathExists [''Approved''],
                       Terminate 7, Waited 7 5000, Kill 7]\<rparr>, 0)"
proof -
  have r: "run_loop stubborn [(io_no_qwen, True)]
     = Some (\<lparr>o_vault = vault_example, watcher_process = None, running = False,
              calls = [PathExists [''Needs_Action''], Glob [''Needs_Action''], PathExists [''Approved''],
                       Terminate 7, Waited 7 5000, Kill 7]\<rparr>, 0)"
    by (simp add: run_cycle_stubborn)
       (simp add: stubborn_def shutdown_def stop_watcher_def wait_timeout_def)
  from run_loop_always_stops_watcher [OF r] r show ?thesis by simp
qed

text \<open>
  Where the fall-backs work: a source that cannot be read but answers \<open>stat\<close> has its
  modification time as fingerprint, and when \<open>write_text\<close> returns the record is in the
  vault and that fingerprint is added. The record holds size 0 and the current time when
  the metadata cannot be read, be it that \<open>stat\<close> fails or that one of its time stamps
  cannot be converted, and the metadata of the file otherwise.
\<close>

theorem unreadable_source_still_recorded:
  assumes "\<not> is_directory ev" and "\<not> hidden_name ev" and "\<not> outside_drop h ev"
    and "open_read io = Inl e" and "stat_for_hash io = Inr st"
    and "MtimeStr (st_mtime st) \<notin> processed_files h"
    and "snd (write_text (h_vault h) (action_path (src_path ev) io)
               (ActionText (expected_record (src_path ev) io))) = Inr ()"
  shows "snd (on_created md5 h ev io) = Inr ()
     \<and> processed_files (fst (on_created md5 h ev io))
          = insert (MtimeStr (st_mtime st)) (processed_files h)
     \<and> node_at (h_vault (fst (on_created md5 h ev io))) (action_path (src_path ev) io)
          = Some (File [ActionText (expected_record (src_path ev) io)])
     \<and> ar_source_file (expected_record (src_path ev) io) = path_name (src_path ev)
     \<and> (\<forall>e'. stat_for_meta io = Inl e' \<longrightarrow>
           ar_file_size (expected_record (src_path ev) io) = 0
           \<and> ar_created (expected_record (src_path ev) io) = NowIso (now_default io)
           \<and> ar_modified (expected_record (src_path ev) io) = NowIso (now_default io))
     \<and> (\<forall>m e'. stat_for_meta io = Inr m \<and>
             (fromtimestamp_raises io (st_ctime m) = Some e'
              \<or> fromtimestamp_raises io (st_mtime m) = Some e') \<longrightarrow>
           ar_file_size (expected_record (src_path ev) io) = 0
           \<and> ar_created (expected_record (src_path ev) io) = NowIso (now_default io)
           \<and> ar_modified (expected_record (src_path ev) io) = NowIso (now_default io))
     \<and> (\<forall>m. stat_for_meta io = Inr m \<and> fromtimestamp_raises io (st_ctime m) = None
             \<and> fromtimestamp_raises io (st_mtime m) = None \<longrightarrow>
           ar_file_size (expected_record (src_path ev) io) = st_size m
           \<and> ar_created (expected_record (src_path ev) io) = FromTimestamp (st_ctime m)
           \<and> ar_modified (expected_record (src_path ev) io) = FromTimestamp (st_mtime m))"
proof -
  have f: "get_file_hash md5 io = Inr (MtimeStr (st_mtime st))"
    using assms(4,5) by (simp add: get_file_hash_def)
  from on_created_write_succeeds [OF assms(1) f assms(6,2,3,7)]
  have a: "snd (on_created md5 h ev io) = Inr ()
     \<and> processed_files (fst (on_created md5 h ev io))
          = insert (MtimeStr (st_mtime st)) (processed_files h)
     \<and> node_at (h_vault (fst (on_created md5 h ev io))) (action_path (src_path ev) io)
          = Some (File [ActionText (expected_record (src_path ev) io)])"
    by simp
  have b: "ar_source_file (expected_record (src_path ev) io) = path_name (src_path ev)"
    by (simp add: expected_record_def split: sum.splits)
  have c: "\<forall>e'. stat_for_meta io = Inl e' \<longrightarrow>
           ar_file_size (expected_record (src_path ev) io) = 0
           \<and> ar_created (expected_record (src_path ev) io) = NowIso (now_default io)
           \<and> ar_modified (expected_record (src_path ev) io) = NowIso (now_default io)"
    by (simp add: expected_record_def try_metadata_def)
  have d: "\<forall>m e'. stat_for_meta io = Inr m \<and>
             (fromtimestamp_raises io (st_ctime m) = Some e'
              \<or> fromtimestamp_raises io (st_mtime m) = Some e') \<longrightarrow>
           ar_file_size (expected_record (src_path ev) io) = 0
           \<and> ar_created (expected_record (src_path ev) io) = NowIso (now_default io)
           \<and> ar_modified (expected_record (src_path ev) io) = NowIso (now_default io)"
    by (auto simp: expected_record_def try_metadata_def split: option.splits)
  have g: "\<forall>m. stat_for_meta io = Inr m \<and> fromtimestamp_raises io (st_ctime m) = None
             \<and> fromtimestamp_raises io (st_mtime m) = None \<longrightarrow>
           ar_file_size (expected_record (src_path ev) io) = st_size m
           \<and> ar_created (expected_record (src_path ev) io) = FromTimestamp (st_ctime m)
           \<and> ar_modified (expected_record (src_path ev) io) = FromTimestamp (st_mtime m)"
    by (simp add: expected_record_def try_metadata_def)
  from a b c d g show ?thesis by blast
qed

theorem unreadable_source_still_recorded_witness:
  "snd (on_created (\<lambda>s. s) h_example ev_report io_unreadable) = Inr ()
   \<and> processed_files (fst (on_created (\<lambda>s. s) h_example ev_report io_unreadable)) = {MtimeStr 200}
   \<and> node_at (h_vault (fst (on_created (\<lambda>s. s) h_example ev_report io_unreadable)))
        [''Needs_Action'', ''FILE_DROP_report_txt_20240105_090307.md'']
      = Some (File [ActionText \<lparr>ar_source_file = ''report.txt'',
                      ar_source_path = [''vault'', ''Inbox'', ''report.txt''],
                      ar_file_size = 0, ar_created = NowIso t_example,
                      ar_modified = NowIso t_example, ar_detected = t_example\<rparr>])"
proof -
  have r: "open_read io_unreadable = Inl PermissionError"
    "stat_for_hash io_unreadable = Inr \<lparr>st_size = 5, st_ctime = 100, st_mtime = 200\<rparr>"
    by (simp_all add: io_unreadable_def)
  have n: "MtimeStr (st_mtime \<lparr>st_size = 5, st_ctime = 100, st_mtime = 200\<rparr>) \<notin> processed_files h_example"
    "processed_files h_example = {}"
    by (simp_all add: h_example_def)
  have w: "snd (write_text (h_vault h_example) (action_path (src_path ev_report) io_unreadable)
                  (ActionText (expected_record (src_path ev_report) io_unreadable))) = Inr ()"
    by (simp add: action_path_report h_example_def write_text_example)
  from report_passes have p: "\<not> is_directory ev_report" "\<not> hidden_name ev_report"
    "\<not> outside_drop h_example ev_report" by simp_all
  have e: "expected_record (src_path ev_report) io_unreadable =
      \<lparr>ar_source_file = ''report.txt'', ar_source_path = [''vault'', ''Inbox'', ''report.txt''],
       ar_file_size = 0, ar_created = NowIso t_example,
       ar_modified = NowIso t_example, ar_detected = t_example\<rparr>"
    by (simp add: expected_record_def try_metadata_def io_unreadable_def ev_report_def path_name_def)
  from unreadable_source_still_recorded [OF p r n(1) w, of "\<lambda>s. s"] n(2) e
  show ?thesis by (simp add: action_path_report)
qed


end
